theory Spec2Isabelle
  imports Main "HOL-Library.Word" "HOL-Library.Signed_Division"
begin

section \<open>Outcomes of a call\<close>

text \<open>
  The module dng_safe_arithmetic consists of small C++ functions on fixed-width integers.
  A call either returns a value, or throws a \<open>dng_exception\<close> (through
  \<open>ThrowProgramError\<close>), or, where a C++ operator is applied outside its defined
  range (a zero divisor, a signed result that does not fit), has undefined behaviour.
  The three are kept apart, so that "does not divide by zero" and "does not overflow"
  are statements about the model and not assumptions of it.
\<close>

datatype ub = DivisionByZero | SignedOverflow

datatype dng_exception = ProgramError string

datatype 'a outcome = Returns 'a | Throws dng_exception | Undefined ub

text \<open>
  Modelled from the spec: \<open>ThrowProgramError\<close> is declared in dng_exceptions.h, which
  is not among the sources. The spec describes it as the capability to raise a
  distinguishable arithmetic-error condition with a message; the header comments say it
  throws a \<open>dng_exception\<close> with error code \<open>dng_error_unknown\<close>. The condition is
  modelled by its message.
\<close>

definition ThrowProgramError :: "string \<Rightarrow> 'a outcome" where
  "ThrowProgramError msg = Throws (ProgramError msg)"

text \<open>Sequencing: an exception or undefined behaviour in the first part ends the call.\<close>

fun and_then :: "'a outcome \<Rightarrow> ('a \<Rightarrow> 'b outcome) \<Rightarrow> 'b outcome" where
  "and_then (Returns v) f = f v"
| "and_then (Throws e) f = Throws e"
| "and_then (Undefined u) f = Undefined u"

text \<open>The short-circuit operators \<open>&&\<close> and \<open>||\<close>: the right operand is evaluated
  only when the left one does not decide the result.\<close>

definition land :: "bool outcome \<Rightarrow> bool outcome \<Rightarrow> bool outcome" where
  "land p q = and_then p (\<lambda>x. if x then q else Returns False)"

definition lor :: "bool outcome \<Rightarrow> bool outcome \<Rightarrow> bool outcome" where
  "lor p q = and_then p (\<lambda>x. if x then Returns True else q)"

section \<open>The C++ integer operators\<close>

text \<open>
  \<open>std::uint32_t\<close>, \<open>std::int32_t\<close> and \<open>std::int64_t\<close> are words of 32 and 64 bits;
  \<open>std::size_t\<close> is an unsigned word whose width is the platform's, a type parameter.
  Unsigned values are read with \<open>unat\<close>, signed ones with \<open>sint\<close>.
  Unsigned \<open>+\<close>, \<open>-\<close> and \<open>*\<close> wrap around and are the word operations. Signed
  \<open>+\<close>, \<open>-\<close>, \<open>*\<close> and \<open>/\<close> are undefined when the exact result is not
  representable, and every division or remainder is undefined for a zero divisor.
  Signed division truncates towards zero.
\<close>

type_synonym uint32 = "32 word"
type_synonym int32 = "32 word"
type_synonym int64 = "64 word"

definition numeric_limits_max_signed :: "'a::len word" where
  "numeric_limits_max_signed = word_of_int (2 ^ (LENGTH('a) - 1) - 1)"

definition numeric_limits_min_signed :: "'a::len word" where
  "numeric_limits_min_signed = word_of_int (- (2 ^ (LENGTH('a) - 1)))"

definition numeric_limits_max_unsigned :: "'a::len word" where
  "numeric_limits_max_unsigned = word_of_int (2 ^ LENGTH('a) - 1)"

definition numeric_limits_min_unsigned :: "'a::len word" where
  "numeric_limits_min_unsigned = 0"

definition INT64_MAX :: int64 where
  "INT64_MAX = 9223372036854775807"

definition INT64_MIN :: int64 where
  "INT64_MIN = - 9223372036854775808"

definition signed_result :: "int \<Rightarrow> 'a::len word outcome" where
  "signed_result k =
     (if - (2 ^ (LENGTH('a) - 1)) \<le> k \<and> k < 2 ^ (LENGTH('a) - 1)
      then Returns (word_of_int k) else Undefined SignedOverflow)"

definition signed_add :: "'a::len word \<Rightarrow> 'a word \<Rightarrow> 'a word outcome" where
  "signed_add a b = signed_result (sint a + sint b)"

definition signed_sub :: "'a::len word \<Rightarrow> 'a word \<Rightarrow> 'a word outcome" where
  "signed_sub a b = signed_result (sint a - sint b)"

definition signed_mul :: "'a::len word \<Rightarrow> 'a word \<Rightarrow> 'a word outcome" where
  "signed_mul a b = signed_result (sint a * sint b)"

definition signed_div :: "'a::len word \<Rightarrow> 'a word \<Rightarrow> 'a word outcome" where
  "signed_div a b =
     (if b = 0 then Undefined DivisionByZero else signed_result (sint a sdiv sint b))"

definition unsigned_div :: "'a::len word \<Rightarrow> 'a word \<Rightarrow> 'a word outcome" where
  "unsigned_div a b = (if b = 0 then Undefined DivisionByZero else Returns (a div b))"

definition unsigned_mod :: "'a::len word \<Rightarrow> 'a word \<Rightarrow> 'a word outcome" where
  "unsigned_mod a b = (if b = 0 then Undefined DivisionByZero else Returns (a mod b))"

section \<open>The template functions\<close>

text \<open>
  \<open>SafeAdd<T>\<close> is instantiated at signed types (\<open>int32_t\<close>, \<open>int64_t\<close>) and at an
  unsigned one (\<open>uint32_t\<close>). The body is the same text; its operators and the
  limits of \<open>T\<close> are those of the instance, so there is one definition for each
  signedness, for every width.
\<close>

definition SafeAdd_signed :: "'a::len word \<Rightarrow> 'a word \<Rightarrow> 'a word outcome" where
  "SafeAdd_signed arg1 arg2 =
     and_then
       (lor (land (Returns (0 \<le>s arg1))
                  (and_then (signed_sub numeric_limits_max_signed arg1)
                     (\<lambda>hi. Returns (arg2 \<le>s hi))))
            (land (Returns (arg1 <s 0))
                  (and_then (signed_sub numeric_limits_min_signed arg1)
                     (\<lambda>lo. Returns (lo \<le>s arg2)))))
       (\<lambda>valid. if valid then signed_add arg1 arg2
                else ThrowProgramError ''Arithmetic overflow'')"

definition SafeAdd_unsigned :: "'a::len word \<Rightarrow> 'a word \<Rightarrow> 'a word outcome" where
  "SafeAdd_unsigned arg1 arg2 =
     (if (0 \<le> arg1 \<and> arg2 \<le> numeric_limits_max_unsigned - arg1) \<or>
         (arg1 < 0 \<and> numeric_limits_min_unsigned - arg1 \<le> arg2)
      then Returns (arg1 + arg2)
      else ThrowProgramError ''Arithmetic overflow'')"

definition SafeUnsignedMult :: "'a::len word \<Rightarrow> 'a word \<Rightarrow> 'a word outcome" where
  "SafeUnsignedMult arg1 arg2 =
     and_then
       (lor (Returns (arg1 = 0))
            (and_then (unsigned_div numeric_limits_max_unsigned arg1)
               (\<lambda>q. Returns (arg2 \<le> q))))
       (\<lambda>valid. if valid then Returns (arg1 * arg2)
                else ThrowProgramError ''Arithmetic overflow'')"

section \<open>Calls with an output slot\<close>

text \<open>
  The status forms take a pointer \<open>result\<close> and return \<open>bool\<close>; \<open>ConvertUnsigned\<close>
  takes a pointer \<open>dest\<close> and returns nothing. Such a call is modelled by state passing:
  it takes the value the slot holds on entry and yields how the call ended (\<open>ret\<close>),
  the value the slot holds afterwards (\<open>slot\<close>), and the conditions that were raised
  inside the call and converted by a \<open>catch\<close> clause of the call (\<open>caught\<close>), in order.
\<close>

record ('v, 'r) out_call =
  ret :: "'v outcome"
  slot :: 'r
  caught :: "dng_exception list"

text \<open>
  The block
  \<^verbatim>\<open>try { *result = e; return true; } catch (const dng_exception &) { return false; }\<close>
  with \<open>c\<close> the outcome of the expression \<open>e\<close>: the assignment happens only when
  \<open>e\<close> returns.
\<close>

definition try_store :: "'r outcome \<Rightarrow> 'r \<Rightarrow> (bool, 'r) out_call" where
  "try_store c r =
     (case c of
        Returns v \<Rightarrow> \<lparr>ret = Returns True, slot = v, caught = []\<rparr>
      | Throws e \<Rightarrow> \<lparr>ret = Returns False, slot = r, caught = [e]\<rparr>
      | Undefined u \<Rightarrow> \<lparr>ret = Undefined u, slot = r, caught = []\<rparr>)"

text \<open>An expression evaluated outside any \<open>try\<close> block, in a call whose slot holds \<open>r\<close>.\<close>

definition eval_then ::
  "'a outcome \<Rightarrow> 'r \<Rightarrow> ('a \<Rightarrow> ('v, 'r) out_call) \<Rightarrow> ('v, 'r) out_call" where
  "eval_then c r k =
     (case c of
        Returns v \<Rightarrow> k v
      | Throws e \<Rightarrow> \<lparr>ret = Throws e, slot = r, caught = []\<rparr>
      | Undefined u \<Rightarrow> \<lparr>ret = Undefined u, slot = r, caught = []\<rparr>)"

section \<open>The exported functions\<close>

text \<open>Overloads of one C++ name are told apart by a suffix: \<open>_status\<close> for the form
  with an output pointer, \<open>3\<close> and \<open>4\<close> for the number of factors.\<close>

definition SafeInt32Add :: "int32 \<Rightarrow> int32 \<Rightarrow> int32 outcome" where
  "SafeInt32Add arg1 arg2 = SafeAdd_signed arg1 arg2"

definition SafeInt32Add_status :: "int32 \<Rightarrow> int32 \<Rightarrow> int32 \<Rightarrow> (bool, int32) out_call" where
  "SafeInt32Add_status arg1 arg2 r = try_store (SafeInt32Add arg1 arg2) r"

definition SafeInt64Add :: "int64 \<Rightarrow> int64 \<Rightarrow> int64 outcome" where
  "SafeInt64Add arg1 arg2 = SafeAdd_signed arg1 arg2"

definition SafeUint32Add :: "uint32 \<Rightarrow> uint32 \<Rightarrow> uint32 outcome" where
  "SafeUint32Add arg1 arg2 = SafeAdd_unsigned arg1 arg2"

definition SafeUint32Add_status :: "uint32 \<Rightarrow> uint32 \<Rightarrow> uint32 \<Rightarrow> (bool, uint32) out_call" where
  "SafeUint32Add_status arg1 arg2 r = try_store (SafeUint32Add arg1 arg2) r"

definition SafeInt32Sub_status :: "int32 \<Rightarrow> int32 \<Rightarrow> int32 \<Rightarrow> (bool, int32) out_call" where
  "SafeInt32Sub_status arg1 arg2 r =
     eval_then
       (lor (land (Returns (0 \<le>s arg2))
                  (and_then (signed_add numeric_limits_min_signed arg2)
                     (\<lambda>lo. Returns (lo \<le>s arg1))))
            (land (Returns (arg2 <s 0))
                  (and_then (signed_add numeric_limits_max_signed arg2)
                     (\<lambda>hi. Returns (arg1 \<le>s hi)))))
       r
       (\<lambda>valid. if valid
          then eval_then (signed_sub arg1 arg2) r
                 (\<lambda>v. \<lparr>ret = Returns True, slot = v, caught = []\<rparr>)
          else \<lparr>ret = Returns False, slot = r, caught = []\<rparr>)"

definition SafeInt32Sub :: "int32 \<Rightarrow> int32 \<Rightarrow> int32 outcome" where
  "SafeInt32Sub arg1 arg2 =
     (let c = SafeInt32Sub_status arg1 arg2 0 in
      and_then (ret c)
        (\<lambda>ok. and_then (if \<not> ok then ThrowProgramError ''Arithmetic overflow''
                        else Returns ())
                 (\<lambda>_. Returns (slot c))))"

definition SafeUint32Mult :: "uint32 \<Rightarrow> uint32 \<Rightarrow> uint32 outcome" where
  "SafeUint32Mult arg1 arg2 = SafeUnsignedMult arg1 arg2"

definition SafeUint32Mult3 :: "uint32 \<Rightarrow> uint32 \<Rightarrow> uint32 \<Rightarrow> uint32 outcome" where
  "SafeUint32Mult3 arg1 arg2 arg3 =
     and_then (SafeUint32Mult arg1 arg2) (\<lambda>p. SafeUint32Mult p arg3)"

definition SafeUint32Mult4 ::
  "uint32 \<Rightarrow> uint32 \<Rightarrow> uint32 \<Rightarrow> uint32 \<Rightarrow> uint32 outcome" where
  "SafeUint32Mult4 arg1 arg2 arg3 arg4 =
     and_then (SafeUint32Mult3 arg1 arg2 arg3) (\<lambda>p. SafeUint32Mult p arg4)"

definition SafeUint32Mult_status ::
  "uint32 \<Rightarrow> uint32 \<Rightarrow> uint32 \<Rightarrow> (bool, uint32) out_call" where
  "SafeUint32Mult_status arg1 arg2 r = try_store (SafeUint32Mult arg1 arg2) r"

definition SafeUint32Mult3_status ::
  "uint32 \<Rightarrow> uint32 \<Rightarrow> uint32 \<Rightarrow> uint32 \<Rightarrow> (bool, uint32) out_call" where
  "SafeUint32Mult3_status arg1 arg2 arg3 r = try_store (SafeUint32Mult3 arg1 arg2 arg3) r"

definition SafeUint32Mult4_status ::
  "uint32 \<Rightarrow> uint32 \<Rightarrow> uint32 \<Rightarrow> uint32 \<Rightarrow> uint32 \<Rightarrow> (bool, uint32) out_call" where
  "SafeUint32Mult4_status arg1 arg2 arg3 arg4 r =
     try_store (SafeUint32Mult4 arg1 arg2 arg3 arg4) r"

text \<open>\<open>std::size_t\<close> is an unsigned type of the platform's width \<open>'a\<close>.\<close>

definition SafeSizetMult :: "'a::len word \<Rightarrow> 'a word \<Rightarrow> 'a word outcome" where
  "SafeSizetMult arg1 arg2 = SafeUnsignedMult arg1 arg2"

definition SafeInt64Mult :: "int64 \<Rightarrow> int64 \<Rightarrow> int64 outcome" where
  "SafeInt64Mult arg1 arg2 =
     and_then
       (if 0 <s arg1 then
          (if 0 <s arg2
           then and_then (signed_div INT64_MAX arg2) (\<lambda>q. Returns (q <s arg1))
           else and_then (signed_div INT64_MIN arg1) (\<lambda>q. Returns (arg2 <s q)))
        else
          (if 0 <s arg2
           then and_then (signed_div INT64_MIN arg2) (\<lambda>q. Returns (arg1 <s q))
           else land (Returns (arg1 \<noteq> 0))
                  (and_then (signed_div INT64_MAX arg1) (\<lambda>q. Returns (arg2 <s q)))))
       (\<lambda>overflow. if overflow then ThrowProgramError ''Arithmetic overflow''
                   else signed_mul arg1 arg2)"

definition SafeUint32DivideUp :: "uint32 \<Rightarrow> uint32 \<Rightarrow> uint32 outcome" where
  "SafeUint32DivideUp arg1 arg2 =
     (if arg2 = 0 then ThrowProgramError ''Division by zero''
      else if arg1 = 0 then Returns 0
      else and_then (unsigned_div (arg1 - 1) arg2) (\<lambda>q. Returns (q + 1)))"

definition RoundUpUint32ToMultiple ::
  "uint32 \<Rightarrow> uint32 \<Rightarrow> uint32 \<Rightarrow> (bool, uint32) out_call" where
  "RoundUpUint32ToMultiple val multiple_of r =
     (if multiple_of = 0 then \<lparr>ret = Returns False, slot = r, caught = []\<rparr>
      else eval_then (unsigned_mod val multiple_of) r
             (\<lambda>remainder.
                if remainder = 0 then \<lparr>ret = Returns True, slot = val, caught = []\<rparr>
                else SafeUint32Add_status val (multiple_of - remainder) r))"

definition kInt32MaxAsUint32 :: uint32 where
  "kInt32MaxAsUint32 = ucast (numeric_limits_max_signed :: int32)"

definition ConvertUint32ToInt32 :: "uint32 \<Rightarrow> int32 \<Rightarrow> (bool, int32) out_call" where
  "ConvertUint32ToInt32 val r =
     (if val \<le> kInt32MaxAsUint32
      then \<lparr>ret = Returns True, slot = ucast val, caught = []\<rparr>
      else \<lparr>ret = Returns False, slot = r, caught = []\<rparr>)"

text \<open>\<open>ConvertUnsigned<TSrc, TDest>\<close>: both are unsigned, of any two widths; a
  \<open>static_cast\<close> between them keeps the low bits (\<open>ucast\<close>). The call is not inside a
  \<open>try\<close> block, so the condition leaves the function before the store.\<close>

definition ConvertUnsigned :: "'a::len word \<Rightarrow> 'b::len word \<Rightarrow> (unit, 'b word) out_call" where
  "ConvertUnsigned src d =
     (let converted = (ucast src :: 'b word) in
      eval_then (if (ucast converted :: 'a word) \<noteq> src
                 then ThrowProgramError ''Overflow in unsigned integer conversion''
                 else Returns ())
        d
        (\<lambda>_. \<lparr>ret = Returns (), slot = converted, caught = []\<rparr>))"

section \<open>The direct range checks of the specification\<close>

text \<open>
  The specification describes the status forms of addition, subtraction and round-up
  as direct range checks (sections 4.1, 4.2 and 4.6): for addition, \<open>b\<close> must lie in
  \<open>[min - a, max - a]\<close>, one-sided for an unsigned type; for subtraction, \<open>a \<ge> MIN + b\<close>
  when \<open>b \<ge> 0\<close> and \<open>a \<le> MAX + b\<close> when \<open>b < 0\<close>; round-up rejects a zero
  multiple, keeps a value whose remainder is zero and otherwise adds what is missing to
  the next multiple. These definitions follow those words, on the exact integers, and
  give the status and the value of the slot after the call. They are what the status
  forms of the code are compared with.
\<close>

definition spec_direct_add_int32 :: "int32 \<Rightarrow> int32 \<Rightarrow> int32 \<Rightarrow> bool \<times> int32" where
  "spec_direct_add_int32 a b r =
     (if - (2 ^ 31) - sint a \<le> sint b \<and> sint b \<le> 2 ^ 31 - 1 - sint a
      then (True, a + b) else (False, r))"

definition spec_direct_add_uint32 :: "uint32 \<Rightarrow> uint32 \<Rightarrow> uint32 \<Rightarrow> bool \<times> uint32" where
  "spec_direct_add_uint32 a b r =
     (if unat b \<le> 2 ^ 32 - 1 - unat a then (True, a + b) else (False, r))"

definition spec_direct_sub_int32 :: "int32 \<Rightarrow> int32 \<Rightarrow> int32 \<Rightarrow> bool \<times> int32" where
  "spec_direct_sub_int32 a b r =
     (if (0 \<le> sint b \<and> - (2 ^ 31) + sint b \<le> sint a) \<or>
         (sint b < 0 \<and> sint a \<le> 2 ^ 31 - 1 + sint b)
      then (True, a - b) else (False, r))"

definition spec_direct_round_up :: "uint32 \<Rightarrow> uint32 \<Rightarrow> uint32 \<Rightarrow> bool \<times> uint32" where
  "spec_direct_round_up val multiple_of r =
     (if multiple_of = 0 then (False, r)
      else if val mod multiple_of = 0 then (True, val)
      else spec_direct_add_uint32 val (multiple_of - val mod multiple_of) r)"

section \<open>Auxiliary facts about the operators\<close>

lemma sint_word_of_int_fits:
  assumes "- (2 ^ (LENGTH('a::len) - 1)) \<le> k" "k < 2 ^ (LENGTH('a) - 1)"
  shows "sint (word_of_int k :: 'a word) = k"
  using assms by (simp add: signed_of_int signed_take_bit_int_eq_self)

lemma sint_max_signed: "sint (numeric_limits_max_signed :: 'a::len word) = 2 ^ (LENGTH('a) - 1) - 1"
  unfolding numeric_limits_max_signed_def by (rule sint_word_of_int_fits) simp_all

lemma sint_min_signed: "sint (numeric_limits_min_signed :: 'a::len word) = - (2 ^ (LENGTH('a) - 1))"
  unfolding numeric_limits_min_signed_def by (rule sint_word_of_int_fits) simp_all

lemma signed_result_fits:
  assumes "- (2 ^ (LENGTH('a::len) - 1)) \<le> k" "k < 2 ^ (LENGTH('a) - 1)"
  obtains w :: "'a::len word" where "signed_result k = Returns w" "sint w = k"
proof
  show "signed_result k = Returns (word_of_int k :: 'a word)"
    using assms by (simp add: signed_result_def)
  show "sint (word_of_int k :: 'a word) = k"
    using assms by (rule sint_word_of_int_fits)
qed

lemma signed_add_eq:
  "signed_add a (b :: 'a::len word) =
     (if - (2 ^ (LENGTH('a) - 1)) \<le> sint a + sint b \<and> sint a + sint b < 2 ^ (LENGTH('a) - 1)
      then Returns (a + b) else Undefined SignedOverflow)"
  by (simp add: signed_add_def signed_result_def)

lemma signed_sub_eq:
  "signed_sub a (b :: 'a::len word) =
     (if - (2 ^ (LENGTH('a) - 1)) \<le> sint a - sint b \<and> sint a - sint b < 2 ^ (LENGTH('a) - 1)
      then Returns (a - b) else Undefined SignedOverflow)"
  by (simp add: signed_sub_def signed_result_def)

lemma signed_mul_eq:
  "signed_mul a (b :: 'a::len word) =
     (if - (2 ^ (LENGTH('a) - 1)) \<le> sint a * sint b \<and> sint a * sint b < 2 ^ (LENGTH('a) - 1)
      then Returns (a * b) else Undefined SignedOverflow)"
  by (simp add: signed_mul_def signed_result_def)

lemma signed_sub_fits:
  assumes "- (2 ^ (LENGTH('a::len) - 1)) \<le> sint a - sint b" "sint a - sint b < 2 ^ (LENGTH('a) - 1)"
  obtains w :: "'a::len word" where "signed_sub a b = Returns w" "sint w = sint a - sint b"
  unfolding signed_sub_def by (rule signed_result_fits [OF assms])

lemma signed_add_fits:
  assumes "- (2 ^ (LENGTH('a::len) - 1)) \<le> sint a + sint b" "sint a + sint b < 2 ^ (LENGTH('a) - 1)"
  obtains w :: "'a::len word" where "signed_add a b = Returns w" "sint w = sint a + sint b"
  unfolding signed_add_def by (rule signed_result_fits [OF assms])

lemma SafeAdd_signed_eq:
  "SafeAdd_signed a (b :: 'a::len word) =
     (if - (2 ^ (LENGTH('a) - 1)) \<le> sint a + sint b \<and> sint a + sint b < 2 ^ (LENGTH('a) - 1)
      then Returns (a + b) else Throws (ProgramError ''Arithmetic overflow''))"
proof -
  let ?M = "2 ^ (LENGTH('a) - 1) :: int"
  let ?max = "numeric_limits_max_signed :: 'a word"
  let ?min = "numeric_limits_min_signed :: 'a word"
  have ra: "- ?M \<le> sint a" "sint a < ?M"
    by (rule sint_ge, rule sint_lt)
  have rb: "- ?M \<le> sint b" "sint b < ?M"
    by (rule sint_ge, rule sint_lt)
  show ?thesis
  proof (cases "0 \<le> sint a")
    case True
    have f: "- ?M \<le> sint ?max - sint a" "sint ?max - sint a < ?M"
      using True ra by (simp_all add: sint_max_signed)
    obtain hi :: "'a word" where hi: "signed_sub ?max a = Returns hi"
      and shi: "sint hi = sint ?max - sint a"
      by (rule signed_sub_fits [OF f])
    from True have n: "\<not> a <s 0" "0 \<le>s a" by (simp_all add: word_sless_alt word_sle_eq)
    have "SafeAdd_signed a b =
       (if b \<le>s hi then signed_add a b else Throws (ProgramError ''Arithmetic overflow''))"
      by (simp add: SafeAdd_signed_def lor_def land_def n hi ThrowProgramError_def)
    then show ?thesis using True rb
      by (simp add: word_sle_eq shi sint_max_signed signed_add_eq)
  next
    case False
    have f: "- ?M \<le> sint ?min - sint a" "sint ?min - sint a < ?M"
      using False ra by (simp_all add: sint_min_signed)
    obtain lo :: "'a word" where lo: "signed_sub ?min a = Returns lo"
      and slo: "sint lo = sint ?min - sint a"
      by (rule signed_sub_fits [OF f])
    from False have n: "a <s 0" "\<not> 0 \<le>s a" by (simp_all add: word_sless_alt word_sle_eq)
    have "SafeAdd_signed a b =
       (if lo \<le>s b then signed_add a b else Throws (ProgramError ''Arithmetic overflow''))"
      by (simp add: SafeAdd_signed_def lor_def land_def n lo ThrowProgramError_def)
    then show ?thesis using False rb
      by (simp add: word_sle_eq slo sint_min_signed signed_add_eq)
  qed
qed

lemma unat_minus_1_word: "unat (- 1 :: 'a::len word) = 2 ^ LENGTH('a) - 1"
  by (simp add: unsigned_minus_1_eq_mask mask_eq_exp_minus_1)

lemma SafeAdd_unsigned_eq:
  "SafeAdd_unsigned a (b :: 'a::len word) =
     (if unat a + unat b < 2 ^ LENGTH('a)
      then Returns (a + b) else Throws (ProgramError ''Arithmetic overflow''))"
proof -
  have m: "(numeric_limits_max_unsigned :: 'a word) = - 1"
    by (simp add: numeric_limits_max_unsigned_def)
  have "unat (- 1 - a) = 2 ^ LENGTH('a) - 1 - unat a"
    by (simp add: unat_sub unat_minus_1_word)
  moreover have "unat a < 2 ^ LENGTH('a)" by (rule unsigned_less)
  ultimately have "b \<le> - 1 - a \<longleftrightarrow> unat a + unat b < 2 ^ LENGTH('a)"
    unfolding word_le_nat_alt by arith
  then show ?thesis
    by (simp add: SafeAdd_unsigned_def m ThrowProgramError_def)
qed

lemma unat_add_fits:
  "unat a + unat b < 2 ^ LENGTH('a) \<Longrightarrow> unat (a + b :: 'a::len word) = unat a + unat b"
  by (simp add: unat_word_ariths)

lemma SafeUnsignedMult_eq:
  "SafeUnsignedMult a (b :: 'a::len word) =
     (if unat a * unat b < 2 ^ LENGTH('a)
      then Returns (a * b) else Throws (ProgramError ''Arithmetic overflow''))"
proof (cases "a = 0")
  case True
  then show ?thesis by (simp add: SafeUnsignedMult_def lor_def)
next
  case False
  then have pos: "0 < unat a" by (simp add: unat_gt_0)
  have m: "(numeric_limits_max_unsigned :: 'a word) = - 1"
    by (simp add: numeric_limits_max_unsigned_def)
  have q: "unat (- 1 div a) = (2 ^ LENGTH('a) - 1) div unat a"
    by (simp add: unat_div unat_minus_1_word)
  have "unat b \<le> (2 ^ LENGTH('a) - 1) div unat a \<longleftrightarrow> unat b * unat a \<le> 2 ^ LENGTH('a) - 1"
    using pos by (simp add: less_eq_div_iff_mult_less_eq)
  also have "\<dots> \<longleftrightarrow> unat a * unat b < 2 ^ LENGTH('a)"
  proof -
    have "0 < (2::nat) ^ LENGTH('a)" by simp
    then show ?thesis unfolding mult.commute [of "unat b"] by arith
  qed
  finally have "b \<le> - 1 div a \<longleftrightarrow> unat a * unat b < 2 ^ LENGTH('a)"
    by (simp add: word_le_nat_alt q)
  then show ?thesis using False
    by (simp add: SafeUnsignedMult_def lor_def unsigned_div_def m ThrowProgramError_def)
qed

lemma unat_mult_fits:
  "unat a * unat b < 2 ^ LENGTH('a) \<Longrightarrow> unat (a * b :: 'a::len word) = unat a * unat b"
  by (simp add: unat_word_ariths)

lemma sdiv_nonneg_pos: "0 \<le> k \<Longrightarrow> 0 < l \<Longrightarrow> k sdiv l = k div (l::int)"
  by (simp add: signed_divide_int_def sgn_if)
lemma sdiv_neg_pos: "k < 0 \<Longrightarrow> 0 < l \<Longrightarrow> k sdiv l = - ((- k) div (l::int))"
  by (simp add: signed_divide_int_def sgn_if)
lemma sdiv_pos_neg: "0 \<le> k \<Longrightarrow> l < 0 \<Longrightarrow> k sdiv l = - (k div (- l::int))"
  by (simp add: signed_divide_int_def sgn_if)

lemma int_le_div_iff:
  fixes x k l :: int
  assumes "0 < l"
  shows "x \<le> k div l \<longleftrightarrow> x * l \<le> k"
proof
  assume "x \<le> k div l"
  then have "x * l \<le> (k div l) * l"
    using assms by (simp add: mult_right_mono)
  also have "\<dots> \<le> k"
    using assms by (simp add: minus_mod_eq_div_mult [symmetric])
  finally show "x * l \<le> k" .
next
  assume "x * l \<le> k"
  then have "(x * l) div l \<le> k div l"
    using assms by (rule zdiv_mono1)
  then show "x \<le> k div l"
    using assms by simp
qed

lemma signed_div_fits:
  fixes a b :: "'a::len word"
  assumes "b \<noteq> 0"
    and "- (2 ^ (LENGTH('a) - 1)) \<le> sint a sdiv sint b" "sint a sdiv sint b < 2 ^ (LENGTH('a) - 1)"
  obtains q :: "'a word" where "signed_div a b = Returns q" "sint q = sint a sdiv sint b"
  using assms(1) unfolding signed_div_def if_not_P [OF assms(1)]
  by (rule_tac signed_result_fits [OF assms(2,3)])

text \<open>The four quadrants, on the integers: M is 2 ^ 63.\<close>

lemma quadrant_pp:
  fixes a b M :: int
  assumes "0 < a" "0 < b" "0 < M"
  shows "((M - 1) sdiv b < a) = (\<not> (- M \<le> a * b \<and> a * b < M))"
proof -
  have "0 < a * b" using assms by simp
  then have lo: "- M \<le> a * b" using assms by linarith
  have "(a \<le> (M - 1) div b) = (a * b \<le> M - 1)"
    using assms by (simp add: int_le_div_iff)
  then show ?thesis using assms lo by (auto simp add: sdiv_nonneg_pos)
qed

lemma quadrant_pn:
  fixes a b M :: int
  assumes "0 < a" "b \<le> 0" "0 < M"
  shows "(b < (- M) sdiv a) = (\<not> (- M \<le> a * b \<and> a * b < M))"
proof -
  have "a * b \<le> 0" using assms by (simp add: mult_nonneg_nonpos)
  then have hi: "a * b < M" using assms by linarith
  have "(- b \<le> M div a) = (- b * a \<le> M)"
    using assms by (simp only: int_le_div_iff)
  also have "\<dots> = (- M \<le> a * b)" by (simp add: mult.commute) linarith
  finally show ?thesis using assms hi by (auto simp add: sdiv_neg_pos sdiv_nonneg_pos)
qed

lemma quadrant_nn:
  fixes a b M :: int
  assumes "a < 0" "b \<le> 0" "0 < M"
  shows "(b < (M - 1) sdiv a) = (\<not> (- M \<le> a * b \<and> a * b < M))"
proof -
  have "0 \<le> a * b" using assms by (simp add: mult_nonpos_nonpos)
  then have lo: "- M \<le> a * b" using assms by linarith
  have "(- b \<le> (M - 1) div (- a)) = (- b * - a \<le> M - 1)"
    using assms by (simp only: int_le_div_iff neg_0_less_iff_less)
  also have "\<dots> = (a * b < M)" by (simp add: mult.commute)
  finally show ?thesis using assms lo by (auto simp add: sdiv_pos_neg)
qed


lemma div_nonneg_le_self:
  fixes k l :: int
  assumes "0 \<le> k" "0 < l"
  shows "0 \<le> k div l" "k div l \<le> k"
proof -
  show "0 \<le> k div l" using assms by (simp add: pos_imp_zdiv_nonneg_iff)
  have "k div l \<le> k div 1" using assms by (intro zdiv_mono2) simp_all
  then show "k div l \<le> k" by simp
qed

lemma sdiv_bounds_nonneg:
  fixes k l :: int
  assumes "0 \<le> k" "l \<noteq> 0"
  shows "- k \<le> k sdiv l" "k sdiv l \<le> k"
proof -
  consider "0 < l" | "l < 0" using assms by linarith
  then have "- k \<le> k sdiv l \<and> k sdiv l \<le> k"
  proof cases
    case 1
    with assms div_nonneg_le_self [of k l] show ?thesis by (simp add: sdiv_nonneg_pos)
  next
    case 2
    with assms div_nonneg_le_self [of k "- l"] show ?thesis by (simp add: sdiv_pos_neg)
  qed
  then show "- k \<le> k sdiv l" "k sdiv l \<le> k" by simp_all
qed

lemma sdiv_bounds_neg:
  fixes k l :: int
  assumes "k < 0" "0 < l"
  shows "k \<le> k sdiv l" "k sdiv l \<le> 0"
  using assms div_nonneg_le_self [of "- k" l] by (simp_all add: sdiv_neg_pos)

lemma SafeInt64Mult_eq:
  "SafeInt64Mult a b =
     (if - (2 ^ 63) \<le> sint a * sint b \<and> sint a * sint b < 2 ^ 63
      then Returns (a * b) else Throws (ProgramError ''Arithmetic overflow''))"
proof -
  let ?M = "9223372036854775808 :: int"
  let ?err = "Throws (ProgramError ''Arithmetic overflow'') :: int64 outcome"
  have smax: "sint INT64_MAX = ?M - 1" by (simp add: INT64_MAX_def)
  have smin: "sint INT64_MIN = - ?M" by (simp add: INT64_MIN_def)
  have mul: "signed_mul a b =
     (if - ?M \<le> sint a * sint b \<and> sint a * sint b < ?M then Returns (a * b)
      else Undefined SignedOverflow)"
    by (simp add: signed_mul_eq)
  have z: "0 <s a \<longleftrightarrow> 0 < sint a" "0 <s b \<longleftrightarrow> 0 < sint b"
    by (simp_all add: word_sless_alt)
  have nz: "a = 0 \<longleftrightarrow> sint a = 0" "b = 0 \<longleftrightarrow> sint b = 0"
    by (simp_all add: signed_eq_0_iff)
  have goal: "?thesis \<longleftrightarrow> SafeInt64Mult a b =
     (if - ?M \<le> sint a * sint b \<and> sint a * sint b < ?M then Returns (a * b) else ?err)"
    by simp
  have dmax: "\<exists>q. signed_div INT64_MAX x = Returns q \<and> sint q = (?M - 1) sdiv sint x"
    if "sint x \<noteq> 0" for x :: int64
  proof -
    from that have x: "x \<noteq> 0" by auto
    have "- (2 ^ (LENGTH(64) - 1)) \<le> sint INT64_MAX sdiv sint x"
      "sint INT64_MAX sdiv sint x < 2 ^ (LENGTH(64) - 1)"
      using sdiv_bounds_nonneg [of "?M - 1" "sint x"] that by (simp_all add: smax)
    from signed_div_fits [OF x this] show ?thesis by (metis smax)
  qed
  have dmin: "\<exists>q. signed_div INT64_MIN x = Returns q \<and> sint q = (- ?M) sdiv sint x"
    if "0 < sint x" for x :: int64
  proof -
    from that have x: "x \<noteq> 0" by auto
    have "- (2 ^ (LENGTH(64) - 1)) \<le> sint INT64_MIN sdiv sint x"
      "sint INT64_MIN sdiv sint x < 2 ^ (LENGTH(64) - 1)"
      using sdiv_bounds_neg [of "- ?M" "sint x"] that by (simp_all add: smin)
    from signed_div_fits [OF x this] show ?thesis by (metis smin)
  qed
  consider (pp) "0 < sint a" "0 < sint b" | (pn) "0 < sint a" "sint b \<le> 0"
    | (np) "sint a \<le> 0" "0 < sint b" | (nn) "sint a < 0" "sint b \<le> 0"
    | (zn) "sint a = 0" "sint b \<le> 0"
    by linarith
  then have "SafeInt64Mult a b =
     (if - ?M \<le> sint a * sint b \<and> sint a * sint b < ?M then Returns (a * b) else ?err)"
  proof cases
    case pp
    from dmax [of b] pp obtain q where q: "signed_div INT64_MAX b = Returns q"
      "sint q = (?M - 1) sdiv sint b" by auto
    have "SafeInt64Mult a b = (if q <s a then ?err else signed_mul a b)"
      using pp by (simp add: SafeInt64Mult_def z q ThrowProgramError_def)
    also have "q <s a \<longleftrightarrow> \<not> (- ?M \<le> sint a * sint b \<and> sint a * sint b < ?M)"
      unfolding word_sless_alt q using quadrant_pp [of "sint a" "sint b" ?M] pp by simp
    finally show ?thesis by (simp add: mul)
  next
    case pn
    from dmin [of a] pn obtain q where q: "signed_div INT64_MIN a = Returns q"
      "sint q = (- ?M) sdiv sint a" by auto
    have "SafeInt64Mult a b = (if b <s q then ?err else signed_mul a b)"
      using pn by (simp add: SafeInt64Mult_def z q ThrowProgramError_def)
    also have "b <s q \<longleftrightarrow> \<not> (- ?M \<le> sint a * sint b \<and> sint a * sint b < ?M)"
      unfolding word_sless_alt q using quadrant_pn [of "sint a" "sint b" ?M] pn by simp
    finally show ?thesis by (simp add: mul)
  next
    case np
    from dmin [of b] np obtain q where q: "signed_div INT64_MIN b = Returns q"
      "sint q = (- ?M) sdiv sint b" by auto
    have "SafeInt64Mult a b = (if a <s q then ?err else signed_mul a b)"
      using np by (simp add: SafeInt64Mult_def z q ThrowProgramError_def)
    also have "a <s q \<longleftrightarrow> \<not> (- ?M \<le> sint a * sint b \<and> sint a * sint b < ?M)"
      unfolding word_sless_alt q using quadrant_pn [of "sint b" "sint a" ?M] np
      by (simp add: mult.commute)
    finally show ?thesis by (simp add: mul)
  next
    case nn
    from dmax [of a] nn obtain q where q: "signed_div INT64_MAX a = Returns q"
      "sint q = (?M - 1) sdiv sint a" by auto
    from nn have "a \<noteq> 0" by auto
    then have "SafeInt64Mult a b = (if b <s q then ?err else signed_mul a b)"
      using nn by (simp add: SafeInt64Mult_def z q land_def ThrowProgramError_def)
    also have "b <s q \<longleftrightarrow> \<not> (- ?M \<le> sint a * sint b \<and> sint a * sint b < ?M)"
      unfolding word_sless_alt q using quadrant_nn [of "sint a" "sint b" ?M] nn by simp
    finally show ?thesis by (simp add: mul)
  next
    case zn
    then have "a = 0" using nz by simp
    then show ?thesis using zn
      by (simp add: SafeInt64Mult_def z land_def signed_mul_def signed_result_def)
  qed
  with goal show ?thesis by simp
qed

lemma sint_add_fits:
  "- (2 ^ (LENGTH('a) - 1)) \<le> sint a + sint b \<Longrightarrow> sint a + sint b < 2 ^ (LENGTH('a) - 1) \<Longrightarrow>
   sint (a + b :: 'a::len word) = sint a + sint b"
  using sint_word_of_int_fits [of "sint a + sint b", where 'a = 'a] by simp

lemma sint_mult_fits:
  "- (2 ^ (LENGTH('a) - 1)) \<le> sint a * sint b \<Longrightarrow> sint a * sint b < 2 ^ (LENGTH('a) - 1) \<Longrightarrow>
   sint (a * b :: 'a::len word) = sint a * sint b"
  using sint_word_of_int_fits [of "sint a * sint b", where 'a = 'a] by simp

lemma sint_diff_fits:
  "- (2 ^ (LENGTH('a) - 1)) \<le> sint a - sint b \<Longrightarrow> sint a - sint b < 2 ^ (LENGTH('a) - 1) \<Longrightarrow>
   sint (a - b :: 'a::len word) = sint a - sint b"
  using sint_word_of_int_fits [of "sint a - sint b", where 'a = 'a] by simp

section \<open>Signed 64-bit multiplication\<close>

text \<open>
  Claim C1. For all \<open>int64\<close> operands, \<open>SafeInt64Mult\<close> returns the exact product
  \<open>sint a * sint b\<close> when it lies in \<open>[-2^63, 2^63)\<close>, and throws the condition
  "Arithmetic overflow" otherwise. In each quadrant of the sign analysis the overflow is
  decided by one comparison with one truncating quotient: \<open>a > MAX / b\<close>,
  \<open>b < MIN / a\<close>, \<open>a < MIN / b\<close>, and \<open>a \<noteq> 0\<close> with \<open>b < MAX / a\<close>. The call
  never ends in undefined behaviour, so no quadrant divides by zero or divides the
  minimum value by \<open>-1\<close>, and the product is computed only when it fits.
\<close>

theorem SafeInt64Mult_exact:
  "(- (2 ^ 63) \<le> sint a * sint b \<and> sint a * sint b < 2 ^ 63 \<longrightarrow>
      (\<exists>r. SafeInt64Mult a b = Returns r \<and> sint r = sint a * sint b))
   \<and> (\<not> (- (2 ^ 63) \<le> sint a * sint b \<and> sint a * sint b < 2 ^ 63) \<longrightarrow>
      SafeInt64Mult a b = Throws (ProgramError ''Arithmetic overflow''))
   \<and> (0 < sint a \<and> 0 < sint b \<longrightarrow>
      (SafeInt64Mult a b = Throws (ProgramError ''Arithmetic overflow'') \<longleftrightarrow>
       (2 ^ 63 - 1) sdiv sint b < sint a))
   \<and> (0 < sint a \<and> sint b \<le> 0 \<longrightarrow>
      (SafeInt64Mult a b = Throws (ProgramError ''Arithmetic overflow'') \<longleftrightarrow>
       sint b < (- (2 ^ 63)) sdiv sint a))
   \<and> (sint a \<le> 0 \<and> 0 < sint b \<longrightarrow>
      (SafeInt64Mult a b = Throws (ProgramError ''Arithmetic overflow'') \<longleftrightarrow>
       sint a < (- (2 ^ 63)) sdiv sint b))
   \<and> (sint a \<le> 0 \<and> sint b \<le> 0 \<longrightarrow>
      (SafeInt64Mult a b = Throws (ProgramError ''Arithmetic overflow'') \<longleftrightarrow>
       sint a \<noteq> 0 \<and> sint b < (2 ^ 63 - 1) sdiv sint a))
   \<and> SafeInt64Mult a b \<noteq> Undefined u"
proof -
  let ?M = "2 ^ 63 :: int"
  let ?fits = "- ?M \<le> sint a * sint b \<and> sint a * sint b < ?M"
  let ?E = "Throws (ProgramError ''Arithmetic overflow'') :: int64 outcome"
  have M: "0 < ?M" by simp
  have val: "sint (a * b) = sint a * sint b" if ?fits
    using that sint_mult_fits [of a b] by simp
  have thr: "SafeInt64Mult a b = ?E \<longleftrightarrow> \<not> ?fits"
    unfolding SafeInt64Mult_eq by simp
  have pp: "SafeInt64Mult a b = ?E \<longleftrightarrow> (?M - 1) sdiv sint b < sint a"
    if "0 < sint a \<and> 0 < sint b"
    unfolding thr using that quadrant_pp [of "sint a" "sint b" ?M] M by blast
  have pn: "SafeInt64Mult a b = ?E \<longleftrightarrow> sint b < (- ?M) sdiv sint a"
    if "0 < sint a \<and> sint b \<le> 0"
    unfolding thr using that quadrant_pn [of "sint a" "sint b" ?M] M by blast
  have np: "SafeInt64Mult a b = ?E \<longleftrightarrow> sint a < (- ?M) sdiv sint b"
    if "sint a \<le> 0 \<and> 0 < sint b"
    unfolding thr mult.commute [of "sint a"]
    using that quadrant_pn [of "sint b" "sint a" ?M] M by blast
  have nn: "SafeInt64Mult a b = ?E \<longleftrightarrow> sint a \<noteq> 0 \<and> sint b < (?M - 1) sdiv sint a"
    if h: "sint a \<le> 0 \<and> sint b \<le> 0"
  proof (cases "sint a = 0")
    case True
    then show ?thesis unfolding thr by simp
  next
    case False
    with h have "sint a < 0" "sint b \<le> 0" by simp_all
    from quadrant_nn [OF this M] False show ?thesis unfolding thr by blast
  qed
  have def: "SafeInt64Mult a b \<noteq> Undefined u"
    unfolding SafeInt64Mult_eq by simp
  have ok: "?fits \<longrightarrow> (\<exists>r. SafeInt64Mult a b = Returns r \<and> sint r = sint a * sint b)"
    using val unfolding SafeInt64Mult_eq by simp
  from ok thr pp pn np nn def show ?thesis by blast
qed

text \<open>The theorem in each quadrant: at \<open>3 * (-4)\<close> and \<open>(-3) * 4\<close>, which fit, and at
  \<open>INT64_MIN * (-1)\<close> and \<open>2^32 * 2^32\<close>, which do not.\<close>

theorem SafeInt64Mult_exact_witness:
  "(- (2 ^ 63) \<le> sint (3 :: int64) * sint (- 4 :: int64)
      \<and> sint (3 :: int64) * sint (- 4 :: int64) < 2 ^ 63)
   \<and> (\<exists>r. SafeInt64Mult 3 (- 4) = Returns r \<and> sint r = - 12)
   \<and> \<not> (- (2 ^ 63) \<le> sint INT64_MIN * sint (- 1 :: int64)
      \<and> sint INT64_MIN * sint (- 1 :: int64) < 2 ^ 63)
   \<and> SafeInt64Mult INT64_MIN (- 1) = Throws (ProgramError ''Arithmetic overflow'')
   \<and> 0 < sint (3 :: int64) \<and> sint (- 4 :: int64) \<le> 0
   \<and> \<not> sint (- 4 :: int64) < (- (2 ^ 63)) sdiv sint (3 :: int64)
   \<and> sint INT64_MIN \<le> 0 \<and> sint (- 1 :: int64) \<le> 0
   \<and> sint (- 1 :: int64) < (2 ^ 63 - 1) sdiv sint INT64_MIN
   \<and> 0 < sint (4294967296 :: int64)
   \<and> SafeInt64Mult 4294967296 4294967296 = Throws (ProgramError ''Arithmetic overflow'')
   \<and> (2 ^ 63 - 1) sdiv sint (4294967296 :: int64) < sint (4294967296 :: int64)
   \<and> sint (- 3 :: int64) \<le> 0 \<and> 0 < sint (4 :: int64)
   \<and> SafeInt64Mult (- 3) 4 \<noteq> Throws (ProgramError ''Arithmetic overflow'')
   \<and> \<not> sint (- 3 :: int64) < (- (2 ^ 63)) sdiv sint (4 :: int64)"
  using SafeInt64Mult_exact [of 3 "- 4"] SafeInt64Mult_exact [of INT64_MIN "- 1"]
    SafeInt64Mult_exact [of 4294967296 4294967296]
    SafeInt64Mult_exact [of "- 3" 4]
  by (simp add: INT64_MIN_def signed_divide_int_def)

section \<open>Checked addition\<close>

text \<open>
  Claim C2. For operands of type \<open>int32\<close>, \<open>uint32\<close> or \<open>int64\<close>, checked addition
  succeeds if and only if the exact sum is representable in the type, and on success the
  value returned by the result form, or stored by the status form, is that exact sum.
  When the sum is not representable the result form throws the condition
  "Arithmetic overflow" and the status form returns false: the addition is never left
  to overflow.
\<close>

theorem checked_add_exact:
  "((\<exists>v. SafeInt32Add a b = Returns v) \<longleftrightarrow>
      - (2 ^ 31) \<le> sint a + sint b \<and> sint a + sint b < 2 ^ 31)
   \<and> (SafeInt32Add a b = Returns v \<longrightarrow> sint v = sint a + sint b)
   \<and> (ret (SafeInt32Add_status a b r) = Returns True \<longleftrightarrow>
      - (2 ^ 31) \<le> sint a + sint b \<and> sint a + sint b < 2 ^ 31)
   \<and> (ret (SafeInt32Add_status a b r) = Returns True \<longrightarrow>
      sint (slot (SafeInt32Add_status a b r)) = sint a + sint b)
   \<and> ((\<exists>w. SafeUint32Add c d = Returns w) \<longleftrightarrow> unat c + unat d < 2 ^ 32)
   \<and> (SafeUint32Add c d = Returns w \<longrightarrow> unat w = unat c + unat d)
   \<and> (ret (SafeUint32Add_status c d s) = Returns True \<longleftrightarrow> unat c + unat d < 2 ^ 32)
   \<and> (ret (SafeUint32Add_status c d s) = Returns True \<longrightarrow>
      unat (slot (SafeUint32Add_status c d s)) = unat c + unat d)
   \<and> ((\<exists>z. SafeInt64Add x y = Returns z) \<longleftrightarrow>
      - (2 ^ 63) \<le> sint x + sint y \<and> sint x + sint y < 2 ^ 63)
   \<and> (SafeInt64Add x y = Returns z \<longrightarrow> sint z = sint x + sint y)
   \<and> (\<not> (- (2 ^ 31) \<le> sint a + sint b \<and> sint a + sint b < 2 ^ 31) \<longrightarrow>
        SafeInt32Add a b = Throws (ProgramError ''Arithmetic overflow'')
        \<and> ret (SafeInt32Add_status a b r) = Returns False)
   \<and> (\<not> unat c + unat d < 2 ^ 32 \<longrightarrow>
        SafeUint32Add c d = Throws (ProgramError ''Arithmetic overflow'')
        \<and> ret (SafeUint32Add_status c d s) = Returns False)
   \<and> (\<not> (- (2 ^ 63) \<le> sint x + sint y \<and> sint x + sint y < 2 ^ 63) \<longrightarrow>
        SafeInt64Add x y = Throws (ProgramError ''Arithmetic overflow''))"
proof -
  have i32: "sint (a + b) = sint a + sint b"
    if "- (2 ^ 31) \<le> sint a + sint b" "sint a + sint b < 2 ^ 31"
    using that sint_add_fits [of a b] by simp
  have i64: "sint (x + y) = sint x + sint y"
    if "- (2 ^ 63) \<le> sint x + sint y" "sint x + sint y < 2 ^ 63"
    using that sint_add_fits [of x y] by simp
  have u32: "unat (c + d) = unat c + unat d" if "unat c + unat d < 2 ^ 32"
    using that unat_add_fits [of c d] by simp
  have 1: "((\<exists>v. SafeInt32Add a b = Returns v) \<longleftrightarrow>
      - (2 ^ 31) \<le> sint a + sint b \<and> sint a + sint b < 2 ^ 31)
    \<and> (SafeInt32Add a b = Returns v \<longrightarrow> sint v = sint a + sint b)"
    using i32 by (auto simp add: SafeInt32Add_def SafeAdd_signed_eq)
  have 2: "(ret (SafeInt32Add_status a b r) = Returns True \<longleftrightarrow>
      - (2 ^ 31) \<le> sint a + sint b \<and> sint a + sint b < 2 ^ 31)
   \<and> (ret (SafeInt32Add_status a b r) = Returns True \<longrightarrow>
      sint (slot (SafeInt32Add_status a b r)) = sint a + sint b)"
    using i32 by (simp add: SafeInt32Add_status_def try_store_def SafeInt32Add_def SafeAdd_signed_eq)
  have 3: "((\<exists>w. SafeUint32Add c d = Returns w) \<longleftrightarrow> unat c + unat d < 2 ^ 32)
   \<and> (SafeUint32Add c d = Returns w \<longrightarrow> unat w = unat c + unat d)"
    using u32 by (auto simp add: SafeUint32Add_def SafeAdd_unsigned_eq)
  have 4: "(ret (SafeUint32Add_status c d s) = Returns True \<longleftrightarrow> unat c + unat d < 2 ^ 32)
   \<and> (ret (SafeUint32Add_status c d s) = Returns True \<longrightarrow>
      unat (slot (SafeUint32Add_status c d s)) = unat c + unat d)"
    using u32 by (simp add: SafeUint32Add_status_def try_store_def SafeUint32Add_def SafeAdd_unsigned_eq)
  have 5: "((\<exists>z. SafeInt64Add x y = Returns z) \<longleftrightarrow>
      - (2 ^ 63) \<le> sint x + sint y \<and> sint x + sint y < 2 ^ 63)
   \<and> (SafeInt64Add x y = Returns z \<longrightarrow> sint z = sint x + sint y)"
    using i64 by (auto simp add: SafeInt64Add_def SafeAdd_signed_eq)
  have 6: "\<not> (- (2 ^ 31) \<le> sint a + sint b \<and> sint a + sint b < 2 ^ 31) \<longrightarrow>
        SafeInt32Add a b = Throws (ProgramError ''Arithmetic overflow'')
        \<and> ret (SafeInt32Add_status a b r) = Returns False"
    by (simp add: SafeInt32Add_status_def try_store_def SafeInt32Add_def SafeAdd_signed_eq)
  have 7: "\<not> unat c + unat d < 2 ^ 32 \<longrightarrow>
        SafeUint32Add c d = Throws (ProgramError ''Arithmetic overflow'')
        \<and> ret (SafeUint32Add_status c d s) = Returns False"
    by (simp add: SafeUint32Add_status_def try_store_def SafeUint32Add_def SafeAdd_unsigned_eq)
  have 8: "\<not> (- (2 ^ 63) \<le> sint x + sint y \<and> sint x + sint y < 2 ^ 63) \<longrightarrow>
        SafeInt64Add x y = Throws (ProgramError ''Arithmetic overflow'')"
    by (simp add: SafeInt64Add_def SafeAdd_signed_eq)
  from 1 2 3 4 5 6 7 8 show ?thesis by blast
qed


text \<open>The theorem at sums that reach the largest and the smallest value of each type,
  and at sums one beyond them.\<close>

theorem checked_add_exact_witness:
  "SafeInt32Add 2147483646 1 = Returns 2147483647
   \<and> sint (2147483647 :: int32) = sint (2147483646 :: int32) + sint (1 :: int32)
   \<and> ret (SafeInt32Add_status 2147483646 1 0) = Returns True
   \<and> sint (slot (SafeInt32Add_status 2147483646 1 0)) = 2147483647
   \<and> SafeUint32Add 4294967294 1 = Returns 4294967295
   \<and> unat (4294967295 :: uint32) = unat (4294967294 :: uint32) + unat (1 :: uint32)
   \<and> ret (SafeUint32Add_status 4294967294 1 0) = Returns True
   \<and> unat (slot (SafeUint32Add_status 4294967294 1 0)) = 4294967295
   \<and> SafeInt64Add (- 9223372036854775807) (- 1) = Returns (- 9223372036854775808)
   \<and> sint (- 9223372036854775808 :: int64) = sint (- 9223372036854775807 :: int64) + sint (- 1 :: int64)
   \<and> \<not> (- (2 ^ 31) \<le> sint (2147483647 :: int32) + sint (1 :: int32)
          \<and> sint (2147483647 :: int32) + sint (1 :: int32) < 2 ^ 31)
   \<and> SafeInt32Add 2147483647 1 = Throws (ProgramError ''Arithmetic overflow'')
   \<and> ret (SafeInt32Add_status 2147483647 1 0) = Returns False
   \<and> \<not> unat (4294967295 :: uint32) + unat (1 :: uint32) < 2 ^ 32
   \<and> SafeUint32Add 4294967295 1 = Throws (ProgramError ''Arithmetic overflow'')
   \<and> ret (SafeUint32Add_status 4294967295 1 0) = Returns False
   \<and> \<not> (- (2 ^ 63) \<le> sint (- 9223372036854775808 :: int64) + sint (- 1 :: int64)
          \<and> sint (- 9223372036854775808 :: int64) + sint (- 1 :: int64) < 2 ^ 63)
   \<and> SafeInt64Add (- 9223372036854775808) (- 1) = Throws (ProgramError ''Arithmetic overflow'')"
proof -
  have h1: "SafeInt32Add 2147483646 1 = Returns 2147483647"
    by (simp add: SafeInt32Add_def SafeAdd_signed_eq)
  have h2: "ret (SafeInt32Add_status 2147483646 1 0) = Returns True"
    by (simp add: SafeInt32Add_status_def try_store_def h1)
  have h3: "SafeUint32Add 4294967294 1 = Returns 4294967295"
    by (simp add: SafeUint32Add_def SafeAdd_unsigned_eq)
  have h4: "ret (SafeUint32Add_status 4294967294 1 0) = Returns True"
    by (simp add: SafeUint32Add_status_def try_store_def h3)
  have h5: "SafeInt64Add (- 9223372036854775807) (- 1) = Returns (- 9223372036854775808)"
    by (simp add: SafeInt64Add_def SafeAdd_signed_eq)
  from h1 h2 h3 h4 h5
    checked_add_exact [of 2147483646 1 2147483647 0 4294967294 1 4294967295 0
      "- 9223372036854775807" "- 1" "- 9223372036854775808"]
  have fits: "sint (2147483647 :: int32) = sint (2147483646 :: int32) + sint (1 :: int32)"
    "sint (slot (SafeInt32Add_status 2147483646 1 0)) = 2147483647"
    "unat (4294967295 :: uint32) = unat (4294967294 :: uint32) + unat (1 :: uint32)"
    "unat (slot (SafeUint32Add_status 4294967294 1 0)) = 4294967295"
    "sint (- 9223372036854775808 :: int64) =
       sint (- 9223372036854775807 :: int64) + sint (- 1 :: int64)"
    by simp_all
  from checked_add_exact [of 2147483647 1 0 0 4294967295 1 0 0 "- 9223372036854775808" "- 1" 0]
  have fails: "SafeInt32Add 2147483647 1 = Throws (ProgramError ''Arithmetic overflow'')"
    "ret (SafeInt32Add_status 2147483647 1 0) = Returns False"
    "SafeUint32Add 4294967295 1 = Throws (ProgramError ''Arithmetic overflow'')"
    "ret (SafeUint32Add_status 4294967295 1 0) = Returns False"
    "SafeInt64Add (- 9223372036854775808) (- 1) = Throws (ProgramError ''Arithmetic overflow'')"
    by simp_all
  from h1 h2 h3 h4 h5 fits fails show ?thesis by simp
qed

section \<open>Checked unsigned multiplication\<close>

text \<open>
  Claim C3. \<open>SafeUint32Mult\<close> and \<open>SafeSizetMult\<close> (at any width \<open>'n\<close> of
  \<open>size_t\<close>) succeed if and only if the exact product is representable, and then return
  it. A zero first factor gives 0; otherwise the call throws exactly when
  \<open>b > MAX / a\<close>. In particular \<open>4294967295 * 2\<close> fails and \<open>0 * 4294967295\<close> is 0.
\<close>

theorem checked_unsigned_mult_exact:
  "((\<exists>v. SafeUint32Mult a b = Returns v) \<longleftrightarrow> unat a * unat b < 2 ^ 32)
   \<and> (SafeUint32Mult a b = Returns v \<longrightarrow> unat v = unat a * unat b)
   \<and> ((\<exists>w. SafeSizetMult c d = Returns w) \<longleftrightarrow> unat c * unat d < 2 ^ LENGTH('n))
   \<and> (SafeSizetMult c d = Returns w \<longrightarrow> unat w = unat c * unat d)
   \<and> SafeUint32Mult 0 b = Returns 0
   \<and> SafeSizetMult 0 d = Returns 0
   \<and> (a \<noteq> 0 \<longrightarrow>
        (SafeUint32Mult a b = Throws (ProgramError ''Arithmetic overflow'') \<longleftrightarrow>
         (2 ^ 32 - 1) div unat a < unat b)
        \<and> (SafeUint32Mult a b = Returns (a * b) \<longleftrightarrow> unat b \<le> (2 ^ 32 - 1) div unat a))
   \<and> (c \<noteq> 0 \<longrightarrow>
        (SafeSizetMult c d = Throws (ProgramError ''Arithmetic overflow'') \<longleftrightarrow>
         (2 ^ LENGTH('n) - 1) div unat c < unat d)
        \<and> (SafeSizetMult c d = Returns (c * d) \<longleftrightarrow> unat d \<le> (2 ^ LENGTH('n) - 1) div unat c))
   \<and> SafeUint32Mult 4294967295 2 = Throws (ProgramError ''Arithmetic overflow'')
   \<and> SafeUint32Mult 0 4294967295 = Returns 0"
  for c d w :: "'n::len word"
proof -
  have bound: "unat p \<le> (2 ^ LENGTH('m) - 1) div unat q \<longleftrightarrow> unat q * unat p < 2 ^ LENGTH('m)"
    if "q \<noteq> 0" for p q :: "'m::len word"
  proof -
    from that have pos: "0 < unat q" by (simp add: unat_gt_0)
    have "0 < (2::nat) ^ LENGTH('m)" by simp
    then have "unat p * unat q \<le> 2 ^ LENGTH('m) - 1 \<longleftrightarrow> unat q * unat p < 2 ^ LENGTH('m)"
      unfolding mult.commute [of "unat p"] by arith
    then show ?thesis using pos by (simp only: less_eq_div_iff_mult_less_eq)
  qed
  have gen: "((\<exists>v. SafeUnsignedMult p q = Returns v) \<longleftrightarrow> unat p * unat q < 2 ^ LENGTH('m))
    \<and> (SafeUnsignedMult p q = Returns v' \<longrightarrow> unat v' = unat p * unat q)
    \<and> SafeUnsignedMult 0 q = Returns 0
    \<and> (p \<noteq> 0 \<longrightarrow>
        (SafeUnsignedMult p q = Throws (ProgramError ''Arithmetic overflow'') \<longleftrightarrow>
         (2 ^ LENGTH('m) - 1) div unat p < unat q)
        \<and> (SafeUnsignedMult p q = Returns (p * q) \<longleftrightarrow> unat q \<le> (2 ^ LENGTH('m) - 1) div unat p))"
    for p q v' :: "'m::len word"
    using bound [of p q] unat_mult_fits [of p q]
    by (auto simp add: SafeUnsignedMult_eq not_le [symmetric])
  have c1: "SafeUint32Mult 4294967295 2 = Throws (ProgramError ''Arithmetic overflow'')"
    by (simp add: SafeUint32Mult_def SafeUnsignedMult_eq)
  have c2: "SafeUint32Mult 0 4294967295 = Returns 0"
    by (simp add: SafeUint32Mult_def SafeUnsignedMult_eq)
  from gen [of a b v] gen [of c d w] c1 c2 show ?thesis
    unfolding SafeUint32Mult_def SafeSizetMult_def by simp
qed

text \<open>The theorem at \<open>65535 * 65537 = 2^32 - 1\<close> and at \<open>65536 * 65536 = 2^32\<close>.\<close>

theorem checked_unsigned_mult_exact_witness:
  "SafeUint32Mult 65535 65537 = Returns 4294967295
   \<and> unat (4294967295 :: uint32) = unat (65535 :: uint32) * unat (65537 :: uint32)
   \<and> SafeSizetMult (65535 :: 64 word) 65537 = Returns 4294967295
   \<and> (65536 :: uint32) \<noteq> 0 \<and> (4294967296 :: 64 word) \<noteq> 0
   \<and> SafeUint32Mult 65536 65536 = Throws (ProgramError ''Arithmetic overflow'')
   \<and> SafeSizetMult (4294967296 :: 64 word) 4294967296 = Throws (ProgramError ''Arithmetic overflow'')"
proof -
  have h1: "SafeUint32Mult 65535 65537 = Returns 4294967295"
    by (simp add: SafeUint32Mult_def SafeUnsignedMult_eq)
  have h2: "SafeSizetMult (65535 :: 64 word) 65537 = Returns 4294967295"
    by (simp add: SafeSizetMult_def SafeUnsignedMult_eq)
  from h1 h2
    checked_unsigned_mult_exact [of 65535 65537 4294967295 "65535 :: 64 word" 65537 4294967295]
    checked_unsigned_mult_exact [of 65536 65536 0 "4294967296 :: 64 word" 4294967296 0]
  show ?thesis by simp
qed

section \<open>Ceiling division\<close>

lemma ceiling_nat:
  fixes A B R :: nat
  assumes "0 < A" "0 < B" and R: "R = (A - 1) div B + 1"
  shows "A \<le> R * B"
    and "(R - 1) * B < A"
    and "R = (A + B - 1) div B"
    and "R \<le> A"
proof -
  define q where "q = (A - 1) div B"
  define t where "t = (A - 1) mod B"
  have d: "q * B + t = A - 1" by (simp add: q_def t_def)
  have m: "t < B" using assms by (simp add: t_def)
  have Rq: "R = q + 1" by (simp add: R q_def)
  have e: "R * B = q * B + B" "(R - 1) * B = q * B" by (simp_all add: Rq)
  from d m assms(1) show "A \<le> R * B" unfolding e by arith
  from d assms(1) show "(R - 1) * B < A" unfolding e by arith
  have "A + B - 1 = A - 1 + B" using assms(1) by arith
  then have "(A + B - 1) div B = (A - 1 + B) div B" by (rule arg_cong)
  also have "\<dots> = (A - 1) div B + 1" using assms(2) by (simp only: div_add_self2)
  finally show "R = (A + B - 1) div B" by (simp only: R)
  have "(A - 1) div B \<le> A - 1" by (rule div_le_dividend)
  with assms show "R \<le> A" unfolding R by arith
qed

lemma SafeUint32DivideUp_eq:
  assumes "a \<noteq> 0" "b \<noteq> 0"
  shows "\<exists>r. SafeUint32DivideUp a b = Returns r \<and> unat r = (unat a - 1) div unat b + 1"
proof -
  from assms have pos: "0 < unat a" "0 < unat b" by (simp_all add: unat_gt_0)
  have q: "unat ((a - 1) div b) = (unat a - 1) div unat b"
    using assms by (simp add: unat_div unat_minus_one)
  have "(unat a - 1) div unat b + 1 \<le> unat a" using pos by (rule ceiling_nat(4)) simp
  moreover have "unat a < 2 ^ 32" using unsigned_less [of a] by simp
  ultimately have "unat ((a - 1) div b) + unat (1 :: uint32) < 2 ^ LENGTH(32)"
    by (simp add: q)
  then have "unat ((a - 1) div b + 1) = unat ((a - 1) div b) + unat (1 :: uint32)"
    by (rule unat_add_fits)
  then show ?thesis using assms
    by (simp add: SafeUint32DivideUp_def unsigned_div_def q)
qed

text \<open>
  Claim C4. For \<open>b > 0\<close>, \<open>SafeUint32DivideUp a b\<close> returns \<open>r\<close> with
  \<open>r * b \<ge> a\<close> and, when \<open>r > 0\<close>, \<open>(r - 1) * b < a\<close>, on the exact naturals: \<open>r\<close>
  is the ceiling of \<open>a / b\<close> and no intermediate value wraps around. For \<open>b > 0\<close>,
  \<open>SafeUint32DivideUp 0 b\<close> is 0. For every \<open>a\<close>, \<open>SafeUint32DivideUp a 0\<close>
  throws the condition "Division by zero".
\<close>

theorem SafeUint32DivideUp_ceiling:
  "(b \<noteq> 0 \<longrightarrow>
      (\<exists>r. SafeUint32DivideUp a b = Returns r
         \<and> unat a \<le> unat r * unat b
         \<and> (0 < unat r \<longrightarrow> (unat r - 1) * unat b < unat a)
         \<and> unat r = (unat a + unat b - 1) div unat b))
   \<and> (b \<noteq> 0 \<longrightarrow> SafeUint32DivideUp 0 b = Returns 0)
   \<and> SafeUint32DivideUp a 0 = Throws (ProgramError ''Division by zero'')"
proof -
  have main: "\<exists>r. SafeUint32DivideUp a b = Returns r
         \<and> unat a \<le> unat r * unat b
         \<and> (0 < unat r \<longrightarrow> (unat r - 1) * unat b < unat a)
         \<and> unat r = (unat a + unat b - 1) div unat b" if b: "b \<noteq> 0"
  proof (cases "a = 0")
    case True
    from b have "0 < unat b" by (simp add: unat_gt_0)
    then have "(unat b - 1) div unat b = 0" by simp
    with True b show ?thesis by (simp add: SafeUint32DivideUp_def)
  next
    case False
    from False b have pos: "0 < unat a" "0 < unat b" by (simp_all add: unat_gt_0)
    from SafeUint32DivideUp_eq [OF False b] obtain r
      where r: "SafeUint32DivideUp a b = Returns r" "unat r = (unat a - 1) div unat b + 1"
      by blast
    from ceiling_nat [OF pos r(2)] r(1) show ?thesis by blast
  qed
  have zero: "SafeUint32DivideUp 0 b = Returns 0" if "b \<noteq> 0"
    using that by (simp add: SafeUint32DivideUp_def)
  have err: "SafeUint32DivideUp a 0 = Throws (ProgramError ''Division by zero'')"
    by (simp add: SafeUint32DivideUp_def ThrowProgramError_def)
  from main zero err show ?thesis by blast
qed

text \<open>The theorem at \<open>10 / 3\<close>, rounded up to 4.\<close>

theorem SafeUint32DivideUp_ceiling_witness:
  "(3 :: uint32) \<noteq> 0
   \<and> SafeUint32DivideUp 10 3 = Returns 4
   \<and> unat (10 :: uint32) \<le> unat (4 :: uint32) * unat (3 :: uint32)
   \<and> 0 < unat (4 :: uint32)
   \<and> (unat (4 :: uint32) - 1) * unat (3 :: uint32) < unat (10 :: uint32)
   \<and> SafeUint32DivideUp 0 3 = Returns 0
   \<and> SafeUint32DivideUp 10 0 = Throws (ProgramError ''Division by zero'')"
proof -
  have e: "SafeUint32DivideUp 10 3 = Returns 4"
    by (simp add: SafeUint32DivideUp_def unsigned_div_def)
  from SafeUint32DivideUp_ceiling [of 3 10] show ?thesis
    unfolding e by simp
qed

section \<open>Rounding up to a multiple\<close>

lemma least_multiple_above:
  fixes V M k :: nat
  assumes "0 < M" "V mod M \<noteq> 0" "M dvd k" "V \<le> k"
  shows "V + (M - V mod M) \<le> k"
proof -
  from assms(3) obtain j where k: "k = M * j" by (auto simp: dvd_def)
  have V: "M * (V div M) + V mod M = V" by simp
  have lt: "V mod M < M" using assms(1) by simp
  have "M * (V div M) < M * j" using V assms(2,4) k by arith
  then have "V div M < j" using assms(1) by simp
  then have "V div M + 1 \<le> j" by simp
  then have "M * (V div M + 1) \<le> M * j" by (rule mult_le_mono2)
  then have "M * (V div M) + M \<le> k" by (simp add: k)
  with V lt show ?thesis by arith
qed

lemma multiple_above:
  fixes V M :: nat
  assumes "0 < M"
  shows "M dvd V + (M - V mod M)"
proof -
  have V: "M * (V div M) + V mod M = V" by simp
  have lt: "V mod M < M" using assms(1) by simp
  have "V + (M - V mod M) = M * (V div M) + M" using V lt by arith
  also have "\<dots> = M * (V div M + 1)" by simp
  finally show ?thesis by simp
qed

lemma RoundUpUint32ToMultiple_eq:
  assumes m: "m \<noteq> 0"
  shows "RoundUpUint32ToMultiple val m r =
     (if val mod m = 0 then \<lparr>ret = Returns True, slot = val, caught = []\<rparr>
      else if unat val + (unat m - unat val mod unat m) < 2 ^ 32
      then \<lparr>ret = Returns True, slot = val + (m - val mod m), caught = []\<rparr>
      else \<lparr>ret = Returns False, slot = r, caught = [ProgramError ''Arithmetic overflow'']\<rparr>)"
proof -
  have "val mod m \<le> m" using m by (simp add: word_mod_less_divisor word_neq_0_conv less_imp_le)
  then have "unat (m - val mod m) = unat m - unat val mod unat m"
    by (simp add: unat_sub unat_mod)
  then show ?thesis using m
    by (simp add: RoundUpUint32ToMultiple_def eval_then_def unsigned_mod_def
        SafeUint32Add_status_def SafeUint32Add_def SafeAdd_unsigned_eq try_store_def)
qed

text \<open>
  Claim C5, as amended. For \<open>m > 0\<close>, \<open>RoundUpUint32ToMultiple val m\<close> succeeds if and
  only if some multiple of \<open>m\<close> that is at least \<open>val\<close> fits in a \<open>uint32\<close>; it then
  stores the smallest such multiple; otherwise it returns false and leaves the slot as it
  was. For \<open>m = 0\<close> it returns false.
\<close>

theorem RoundUpUint32ToMultiple_smallest:
  "(m \<noteq> 0 \<longrightarrow>
      (ret (RoundUpUint32ToMultiple val m r) = Returns True \<longleftrightarrow>
         (\<exists>k < 2 ^ 32. unat m dvd k \<and> unat val \<le> k))
      \<and> (ret (RoundUpUint32ToMultiple val m r) = Returns True \<longrightarrow>
         unat m dvd unat (slot (RoundUpUint32ToMultiple val m r))
         \<and> unat val \<le> unat (slot (RoundUpUint32ToMultiple val m r))
         \<and> (\<forall>k. unat m dvd k \<and> unat val \<le> k \<longrightarrow>
               unat (slot (RoundUpUint32ToMultiple val m r)) \<le> k))
      \<and> (ret (RoundUpUint32ToMultiple val m r) \<noteq> Returns True \<longrightarrow>
         ret (RoundUpUint32ToMultiple val m r) = Returns False
         \<and> slot (RoundUpUint32ToMultiple val m r) = r))
   \<and> ret (RoundUpUint32ToMultiple val 0 r) = Returns False"
proof -
  let ?V = "unat val" and ?M = "unat m"
  let ?T = "?V + (?M - ?V mod ?M)"
  have zero: "ret (RoundUpUint32ToMultiple val 0 r) = Returns False"
    by (simp add: RoundUpUint32ToMultiple_def)
  have main: "(ret (RoundUpUint32ToMultiple val m r) = Returns True \<longleftrightarrow>
         (\<exists>k < 2 ^ 32. ?M dvd k \<and> ?V \<le> k))
      \<and> (ret (RoundUpUint32ToMultiple val m r) = Returns True \<longrightarrow>
         ?M dvd unat (slot (RoundUpUint32ToMultiple val m r))
         \<and> ?V \<le> unat (slot (RoundUpUint32ToMultiple val m r))
         \<and> (\<forall>k. ?M dvd k \<and> ?V \<le> k \<longrightarrow>
               unat (slot (RoundUpUint32ToMultiple val m r)) \<le> k))
      \<and> (ret (RoundUpUint32ToMultiple val m r) \<noteq> Returns True \<longrightarrow>
         ret (RoundUpUint32ToMultiple val m r) = Returns False
         \<and> slot (RoundUpUint32ToMultiple val m r) = r)" if m: "m \<noteq> 0"
  proof -
    from m have pos: "0 < ?M" by (simp add: unat_gt_0)
    have Vlt: "?V < 2 ^ 32" using unsigned_less [of val] by simp
    have rem: "val mod m = 0 \<longleftrightarrow> ?V mod ?M = 0"
      by (metis unat_mod unat_eq_zero)
    consider (exact) "?V mod ?M = 0" | (fits) "?V mod ?M \<noteq> 0" "?T < 2 ^ 32"
      | (over) "?V mod ?M \<noteq> 0" "\<not> ?T < 2 ^ 32" by blast
    then show ?thesis
    proof cases
      case exact
      then have C: "RoundUpUint32ToMultiple val m r = \<lparr>ret = Returns True, slot = val, caught = []\<rparr>"
        by (simp add: RoundUpUint32ToMultiple_eq [OF m] rem)
      from exact have "?M dvd ?V" by (simp add: dvd_eq_mod_eq_0)
      with Vlt show ?thesis unfolding C by auto
    next
      case fits
      have "val mod m \<le> m" using m by (simp add: word_mod_less_divisor word_neq_0_conv less_imp_le)
      then have "unat (m - val mod m) = ?M - ?V mod ?M"
        by (simp add: unat_sub unat_mod)
      with fits have u: "unat (val + (m - val mod m)) = ?T"
        using unat_add_fits [of val "m - val mod m"] by simp
      from fits have C: "RoundUpUint32ToMultiple val m r =
          \<lparr>ret = Returns True, slot = val + (m - val mod m), caught = []\<rparr>"
        by (simp add: RoundUpUint32ToMultiple_eq [OF m] rem)
      have d: "?M dvd ?T" using pos by (rule multiple_above)
      have ge: "?V \<le> ?T" by simp
      have least: "?T \<le> k" if "?M dvd k" "?V \<le> k" for k
        using pos fits(1) that by (rule least_multiple_above)
      from d ge least fits(2) show ?thesis unfolding C by (auto simp add: u)
    next
      case over
      then have C: "RoundUpUint32ToMultiple val m r =
          \<lparr>ret = Returns False, slot = r, caught = [ProgramError ''Arithmetic overflow'']\<rparr>"
        by (simp add: RoundUpUint32ToMultiple_eq [OF m] rem)
      have "\<not> (\<exists>k < 2 ^ 32. ?M dvd k \<and> ?V \<le> k)"
      proof
        assume "\<exists>k < 2 ^ 32. ?M dvd k \<and> ?V \<le> k"
        then obtain k where k: "k < 2 ^ 32" "?M dvd k" "?V \<le> k" by blast
        from pos over(1) k(2,3) have "?T \<le> k" by (rule least_multiple_above)
        with k(1) over(2) show False by simp
      qed
      then show ?thesis unfolding C by simp
    qed
  qed
  from main zero show ?thesis by blast
qed

text \<open>
  Claim C5 as stated says the call succeeds for every \<open>val\<close> and every \<open>m > 0\<close>. It
  does not: the smallest multiple of 2 that is at least \<open>2^32 - 1\<close> is \<open>2^32\<close>, and the
  checked addition of \<open>val\<close> and \<open>m - remainder\<close> fails.
\<close>

theorem RoundUpUint32ToMultiple_overflow_counterexample:
  "(2 :: uint32) \<noteq> 0 \<and> ret (RoundUpUint32ToMultiple 4294967295 2 0) = Returns False"
  by (simp add: RoundUpUint32ToMultiple_def eval_then_def unsigned_mod_def
      SafeUint32Add_status_def SafeUint32Add_def SafeAdd_unsigned_def try_store_def
      numeric_limits_max_unsigned_def numeric_limits_min_unsigned_def ThrowProgramError_def)

text \<open>The amended theorem at \<open>val = 10\<close>, \<open>m = 4\<close>, and at the failing input above.\<close>

theorem RoundUpUint32ToMultiple_smallest_witness:
  "(4 :: uint32) \<noteq> 0
   \<and> ret (RoundUpUint32ToMultiple 10 4 0) = Returns True
   \<and> slot (RoundUpUint32ToMultiple 10 4 0) = 12
   \<and> unat (4 :: uint32) dvd unat (12 :: uint32)
   \<and> unat (10 :: uint32) \<le> unat (12 :: uint32)
   \<and> unat (4 :: uint32) dvd (16 :: nat) \<and> unat (10 :: uint32) \<le> (16 :: nat)
   \<and> unat (12 :: uint32) \<le> (16 :: nat)
   \<and> ret (RoundUpUint32ToMultiple 4294967295 2 7) \<noteq> Returns True
   \<and> slot (RoundUpUint32ToMultiple 4294967295 2 7) = 7"
proof -
  have e: "RoundUpUint32ToMultiple 10 4 0 = \<lparr>ret = Returns True, slot = 12, caught = []\<rparr>"
    by (simp add: RoundUpUint32ToMultiple_def eval_then_def unsigned_mod_def
      SafeUint32Add_status_def SafeUint32Add_def SafeAdd_unsigned_def try_store_def
      numeric_limits_max_unsigned_def numeric_limits_min_unsigned_def ThrowProgramError_def)
  have f: "ret (RoundUpUint32ToMultiple 4294967295 2 7) \<noteq> Returns True"
    by (simp add: RoundUpUint32ToMultiple_def eval_then_def unsigned_mod_def
      SafeUint32Add_status_def SafeUint32Add_def SafeAdd_unsigned_def try_store_def
      numeric_limits_max_unsigned_def numeric_limits_min_unsigned_def ThrowProgramError_def)
  from RoundUpUint32ToMultiple_smallest [of 4 10 0] RoundUpUint32ToMultiple_smallest [of 2 4294967295 7] f
  show ?thesis unfolding e by simp
qed

section \<open>Chained multiplication\<close>

lemma chained_fits_nat:
  fixes A B C N :: nat
  assumes "0 < N"
  shows "((A * B < N \<and> A * B * C < N) \<longleftrightarrow> (B * C < N \<and> A * (B * C) < N)) \<longleftrightarrow>
         \<not> (A = 0 \<and> N \<le> B * C \<or> C = 0 \<and> N \<le> A * B)"
proof -
  consider "A = 0" | "C = 0" "A \<noteq> 0" | "A \<noteq> 0" "C \<noteq> 0" by blast
  then show ?thesis
  proof cases
    case 1
    then show ?thesis using assms by auto
  next
    case 2
    then show ?thesis using assms by auto
  next
    case 3
    have ab: "A * B \<le> A * B * C" using 3 by simp
    have bc: "B * C \<le> A * (B * C)" using 3 by simp
    have e: "A * B * C = A * (B * C)" by (simp add: mult.assoc)
    have l: "A * B < N" if "A * (B * C) < N" using that ab e by linarith
    have r: "B * C < N" if "A * (B * C) < N" using that bc by linarith
    from 3 l r show ?thesis unfolding e by blast
  qed
qed

lemma SafeUint32Mult3_eq:
  "SafeUint32Mult3 a b c =
     (if unat a * unat b < 2 ^ 32 \<and> unat a * unat b * unat c < 2 ^ 32
      then Returns (a * b * c) else Throws (ProgramError ''Arithmetic overflow''))"
  using unat_mult_fits [of a b]
  by (simp add: SafeUint32Mult3_def SafeUint32Mult_def SafeUnsignedMult_eq)

lemma right_grouping_eq:
  "and_then (SafeUint32Mult b c) (SafeUint32Mult a) =
     (if unat b * unat c < 2 ^ 32 \<and> unat a * (unat b * unat c) < 2 ^ 32
      then Returns (a * b * c) else Throws (ProgramError ''Arithmetic overflow''))"
  using unat_mult_fits [of b c]
  by (simp add: SafeUint32Mult_def SafeUnsignedMult_eq mult.assoc)

text \<open>
  Claim C6, as amended. \<open>Multiply(Multiply(a,b),c)\<close> is the 3-ary \<open>SafeUint32Mult\<close>;
  \<open>Multiply(a,Multiply(b,c))\<close> evaluates the inner call first and passes its
  exception on. When both groupings succeed they give the same result. They agree on
  success and failure except when an outer operand is zero and the product of the other
  two overflows: when \<open>a = 0\<close> and \<open>b * c\<close> does not fit, or \<open>c = 0\<close> and
  \<open>a * b\<close> does not fit.
\<close>

theorem chained_mult_groupings:
  "(((\<exists>x. SafeUint32Mult3 a b c = Returns x) \<longleftrightarrow>
       (\<exists>y. and_then (SafeUint32Mult b c) (SafeUint32Mult a) = Returns y)) \<longleftrightarrow>
      \<not> (a = 0 \<and> 2 ^ 32 \<le> unat b * unat c \<or> c = 0 \<and> 2 ^ 32 \<le> unat a * unat b))
   \<and> (SafeUint32Mult3 a b c = Returns x \<and>
        and_then (SafeUint32Mult b c) (SafeUint32Mult a) = Returns y \<longrightarrow> x = y)
   \<and> SafeUint32Mult3 a b c = and_then (SafeUint32Mult a b) (\<lambda>p. SafeUint32Mult p c)"
proof -
  have z: "a = 0 \<longleftrightarrow> unat a = 0" "c = 0 \<longleftrightarrow> unat c = 0"
    by (simp_all add: unat_eq_zero)
  have "0 < (2::nat) ^ 32" by simp
  then have nat: "((unat a * unat b < 2 ^ 32 \<and> unat a * unat b * unat c < 2 ^ 32) \<longleftrightarrow>
      (unat b * unat c < 2 ^ 32 \<and> unat a * (unat b * unat c) < 2 ^ 32)) \<longleftrightarrow>
      \<not> (unat a = 0 \<and> 2 ^ 32 \<le> unat b * unat c \<or> unat c = 0 \<and> 2 ^ 32 \<le> unat a * unat b)"
    by (rule chained_fits_nat)
  have L: "(\<exists>x. SafeUint32Mult3 a b c = Returns x) \<longleftrightarrow>
      (unat a * unat b < 2 ^ 32 \<and> unat a * unat b * unat c < 2 ^ 32)"
    unfolding SafeUint32Mult3_eq by simp
  have R: "(\<exists>y. and_then (SafeUint32Mult b c) (SafeUint32Mult a) = Returns y) \<longleftrightarrow>
      (unat b * unat c < 2 ^ 32 \<and> unat a * (unat b * unat c) < 2 ^ 32)"
    unfolding right_grouping_eq by simp
  have 1: "((\<exists>x. SafeUint32Mult3 a b c = Returns x) \<longleftrightarrow>
       (\<exists>y. and_then (SafeUint32Mult b c) (SafeUint32Mult a) = Returns y)) \<longleftrightarrow>
      \<not> (a = 0 \<and> 2 ^ 32 \<le> unat b * unat c \<or> c = 0 \<and> 2 ^ 32 \<le> unat a * unat b)"
    unfolding L R z by (rule nat)
  have 2: "SafeUint32Mult3 a b c = Returns x \<and>
        and_then (SafeUint32Mult b c) (SafeUint32Mult a) = Returns y \<longrightarrow> x = y"
    unfolding SafeUint32Mult3_eq right_grouping_eq by (auto split: if_splits)
  have 3: "SafeUint32Mult3 a b c = and_then (SafeUint32Mult a b) (\<lambda>p. SafeUint32Mult p c)"
    by (simp add: SafeUint32Mult3_def)
  from 1 2 3 show ?thesis by blast
qed

text \<open>
  Claim C6 as stated says the two groupings always agree on success and failure. At
  \<open>a = 0\<close>, \<open>b = 4294967295\<close>, \<open>c = 2\<close> the left grouping returns 0 and the right
  one throws.
\<close>

theorem chained_mult_groupings_counterexample:
  "SafeUint32Mult3 0 4294967295 2 = Returns 0
   \<and> and_then (SafeUint32Mult 4294967295 2) (SafeUint32Mult 0) =
       Throws (ProgramError ''Arithmetic overflow'')"
  by (simp add: SafeUint32Mult3_def SafeUint32Mult_def SafeUnsignedMult_def lor_def
      unsigned_div_def numeric_limits_max_unsigned_def ThrowProgramError_def word_le_nat_alt)

text \<open>The amended theorem at \<open>1000 * 1000 * 1000\<close>, where both groupings succeed.\<close>

theorem chained_mult_groupings_witness:
  "SafeUint32Mult3 1000 1000 1000 = Returns 1000000000
   \<and> and_then (SafeUint32Mult 1000 1000) (SafeUint32Mult 1000) = Returns 1000000000
   \<and> \<not> ((1000 :: uint32) = 0 \<and> 2 ^ 32 \<le> unat (1000 :: uint32) * unat (1000 :: uint32)
        \<or> (1000 :: uint32) = 0 \<and> 2 ^ 32 \<le> unat (1000 :: uint32) * unat (1000 :: uint32))"
proof -
  have l: "SafeUint32Mult3 1000 1000 1000 = Returns 1000000000"
    by (simp add: SafeUint32Mult3_eq)
  have r: "and_then (SafeUint32Mult 1000 1000) (SafeUint32Mult 1000) = Returns 1000000000"
    by (simp add: right_grouping_eq)
  from l r chained_mult_groupings [of 1000 1000 1000 1000000000 1000000000]
  show ?thesis by simp
qed

section \<open>Conversion between unsigned types\<close>

lemma unat_ucast_mod:
  "unat (ucast w :: 'c::len word) = unat w mod 2 ^ LENGTH('c)" for w :: "'b::len word"
  by (simp add: unsigned_ucast_eq take_bit_eq_mod)

lemma ucast_roundtrip_iff:
  "ucast (ucast x :: 'b::len word) = (x :: 'a::len word) \<longleftrightarrow> unat x < 2 ^ LENGTH('b)"
proof
  assume "ucast (ucast x :: 'b word) = x"
  then have "unat x = unat (ucast (ucast x :: 'b word) :: 'a word)" by simp
  also have "\<dots> \<le> unat (ucast x :: 'b word)"
    unfolding unat_ucast_mod [of "ucast x :: 'b word"] by (rule mod_less_eq_dividend)
  also have "\<dots> < 2 ^ LENGTH('b)" by (rule unsigned_less)
  finally show "unat x < 2 ^ LENGTH('b)" .
next
  assume a: "unat x < 2 ^ LENGTH('b)"
  have b: "unat x < 2 ^ LENGTH('a)" by (rule unsigned_less)
  have "unat (ucast (ucast x :: 'b word) :: 'a word) = unat x"
    using a b by (simp add: unat_ucast_mod)
  then show "ucast (ucast x :: 'b word) = x"
    by (simp add: word_unat_eq_iff)
qed

text \<open>
  Claim C7. If \<open>ConvertUnsigned\<close> succeeds, casting the stored value back to the
  source type gives the source value. It throws the truncation condition exactly when the
  round trip changes the value, which is exactly when the source value is not
  representable in the destination type, at any two widths.
\<close>

theorem ConvertUnsigned_roundtrip:
  "(ret (ConvertUnsigned x d) = Returns () \<longrightarrow> ucast (slot (ConvertUnsigned x d)) = x)
   \<and> (ret (ConvertUnsigned x d) = Throws (ProgramError ''Overflow in unsigned integer conversion'')
        \<longleftrightarrow> ucast (ucast x :: 'b word) \<noteq> x)
   \<and> (ret (ConvertUnsigned x d) = Returns () \<longleftrightarrow> ucast (ucast x :: 'b word) = x)
   \<and> (ucast (ucast x :: 'b word) \<noteq> x \<longleftrightarrow> 2 ^ LENGTH('b) \<le> unat x)"
  for x :: "'a::len word" and d :: "'b::len word"
  using ucast_roundtrip_iff [of x, where 'b = 'b]
  by (simp add: ConvertUnsigned_def eval_then_def ThrowProgramError_def Let_def not_less)

text \<open>The theorem at 200 and at 300, converted from 32 to 8 bits.\<close>

theorem ConvertUnsigned_roundtrip_witness:
  "ret (ConvertUnsigned (200 :: 32 word) (7 :: 8 word)) = Returns ()
   \<and> (ucast (slot (ConvertUnsigned (200 :: 32 word) (7 :: 8 word))) :: 32 word) = 200
   \<and> ret (ConvertUnsigned (300 :: 32 word) (7 :: 8 word)) =
        Throws (ProgramError ''Overflow in unsigned integer conversion'')
   \<and> (2 :: nat) ^ LENGTH(8) \<le> unat (300 :: 32 word)"
proof -
  have e: "ret (ConvertUnsigned (200 :: 32 word) (7 :: 8 word)) = Returns ()"
    by (simp add: ConvertUnsigned_def eval_then_def ThrowProgramError_def Let_def)
  from e ConvertUnsigned_roundtrip [of "200 :: 32 word" "7 :: 8 word"]
    ConvertUnsigned_roundtrip [of "300 :: 32 word" "7 :: 8 word"]
  show ?thesis by simp
qed

section \<open>The output slot of a failing call\<close>

lemma SafeInt32Sub_status_eq:
  "SafeInt32Sub_status a b r =
     (if - (2 ^ 31) \<le> sint a - sint b \<and> sint a - sint b < 2 ^ 31
      then \<lparr>ret = Returns True, slot = a - b, caught = []\<rparr>
      else \<lparr>ret = Returns False, slot = r, caught = []\<rparr>)"
proof -
  let ?M = "2 ^ (LENGTH(32) - 1) :: int"
  let ?max = "numeric_limits_max_signed :: int32"
  let ?min = "numeric_limits_min_signed :: int32"
  have ra: "- ?M \<le> sint a" "sint a < ?M"
    by (rule sint_ge, rule sint_lt)
  have rb: "- ?M \<le> sint b" "sint b < ?M"
    by (rule sint_ge, rule sint_lt)
  have sub: "signed_sub a b =
     (if - ?M \<le> sint a - sint b \<and> sint a - sint b < ?M then Returns (a - b)
      else Undefined SignedOverflow)"
    by (rule signed_sub_eq)
  have goal: "?thesis \<longleftrightarrow> SafeInt32Sub_status a b r =
     (if - ?M \<le> sint a - sint b \<and> sint a - sint b < ?M
      then \<lparr>ret = Returns True, slot = a - b, caught = []\<rparr>
      else \<lparr>ret = Returns False, slot = r, caught = []\<rparr>)"
    by simp
  have "SafeInt32Sub_status a b r =
     (if - ?M \<le> sint a - sint b \<and> sint a - sint b < ?M
      then \<lparr>ret = Returns True, slot = a - b, caught = []\<rparr>
      else \<lparr>ret = Returns False, slot = r, caught = []\<rparr>)"
  proof (cases "0 \<le> sint b")
    case True
    have f: "- ?M \<le> sint ?min + sint b" "sint ?min + sint b < ?M"
      using True rb by (simp_all add: sint_min_signed)
    obtain lo :: int32 where lo: "signed_add ?min b = Returns lo"
      and slo: "sint lo = sint ?min + sint b"
      by (rule signed_add_fits [OF f])
    from True have n: "\<not> b <s 0" "0 \<le>s b" by (simp_all add: word_sless_alt word_sle_eq)
    have "SafeInt32Sub_status a b r =
       (if lo \<le>s a then eval_then (signed_sub a b) r
                          (\<lambda>v. \<lparr>ret = Returns True, slot = v, caught = []\<rparr>)
        else \<lparr>ret = Returns False, slot = r, caught = []\<rparr>)"
      by (simp add: SafeInt32Sub_status_def lor_def land_def n lo eval_then_def)
    also have "lo \<le>s a \<longleftrightarrow> - ?M \<le> sint a - sint b \<and> sint a - sint b < ?M"
      unfolding word_sle_eq slo sint_min_signed using True ra by auto
    finally show ?thesis by (simp add: sub eval_then_def)
  next
    case False
    have f: "- ?M \<le> sint ?max + sint b" "sint ?max + sint b < ?M"
      using False rb by (simp_all add: sint_max_signed)
    obtain hi :: int32 where hi: "signed_add ?max b = Returns hi"
      and shi: "sint hi = sint ?max + sint b"
      by (rule signed_add_fits [OF f])
    from False have n: "b <s 0" "\<not> 0 \<le>s b" by (simp_all add: word_sless_alt word_sle_eq)
    have "SafeInt32Sub_status a b r =
       (if a \<le>s hi then eval_then (signed_sub a b) r
                          (\<lambda>v. \<lparr>ret = Returns True, slot = v, caught = []\<rparr>)
        else \<lparr>ret = Returns False, slot = r, caught = []\<rparr>)"
      by (simp add: SafeInt32Sub_status_def lor_def land_def n hi eval_then_def)
    also have "a \<le>s hi \<longleftrightarrow> - ?M \<le> sint a - sint b \<and> sint a - sint b < ?M"
      unfolding word_sle_eq shi sint_max_signed using False ra by auto
    finally show ?thesis by (simp add: sub eval_then_def)
  qed
  with goal show ?thesis by simp
qed

lemma try_store_frame:
  "ret (try_store c r) = Returns False \<Longrightarrow> slot (try_store c r) = r"
  by (cases c) (simp_all add: try_store_def)

lemma RoundUpUint32ToMultiple_zero:
  "RoundUpUint32ToMultiple val 0 r = \<lparr>ret = Returns False, slot = r, caught = []\<rparr>"
  by (simp add: RoundUpUint32ToMultiple_def)

text \<open>
  Claim C8. Every status form that returns false (\<open>SafeInt32Add\<close>, \<open>SafeUint32Add\<close>,
  \<open>SafeInt32Sub\<close>, the three \<open>SafeUint32Mult\<close> overloads, \<open>RoundUpUint32ToMultiple\<close>,
  \<open>ConvertUint32ToInt32\<close>) leaves the output slot at the value it held on entry, and
  \<open>ConvertUnsigned\<close> leaves \<open>*dest\<close> as it was when it throws.
\<close>

theorem status_failure_leaves_slot:
  "(ret (SafeInt32Add_status a b r) = Returns False \<longrightarrow> slot (SafeInt32Add_status a b r) = r)
   \<and> (ret (SafeUint32Add_status c d s) = Returns False \<longrightarrow>
        slot (SafeUint32Add_status c d s) = s)
   \<and> (ret (SafeInt32Sub_status a b r) = Returns False \<longrightarrow> slot (SafeInt32Sub_status a b r) = r)
   \<and> (ret (SafeUint32Mult_status c d s) = Returns False \<longrightarrow>
        slot (SafeUint32Mult_status c d s) = s)
   \<and> (ret (SafeUint32Mult3_status c d e s) = Returns False \<longrightarrow>
        slot (SafeUint32Mult3_status c d e s) = s)
   \<and> (ret (SafeUint32Mult4_status c d e f s) = Returns False \<longrightarrow>
        slot (SafeUint32Mult4_status c d e f s) = s)
   \<and> (ret (RoundUpUint32ToMultiple c d s) = Returns False \<longrightarrow>
        slot (RoundUpUint32ToMultiple c d s) = s)
   \<and> (ret (ConvertUint32ToInt32 c r) = Returns False \<longrightarrow> slot (ConvertUint32ToInt32 c r) = r)
   \<and> (ret (ConvertUnsigned x t) = Throws exn \<longrightarrow> slot (ConvertUnsigned x t) = t)"
proof -
  have sub: "ret (SafeInt32Sub_status a b r) = Returns False \<longrightarrow>
      slot (SafeInt32Sub_status a b r) = r"
    by (simp add: SafeInt32Sub_status_eq)
  have rnd: "ret (RoundUpUint32ToMultiple c d s) = Returns False \<longrightarrow>
      slot (RoundUpUint32ToMultiple c d s) = s"
  proof (cases "d = 0")
    case True
    then show ?thesis by (simp add: RoundUpUint32ToMultiple_zero)
  next
    case False
    then show ?thesis by (simp add: RoundUpUint32ToMultiple_eq)
  qed
  have c32: "ret (ConvertUint32ToInt32 c r) = Returns False \<longrightarrow>
      slot (ConvertUint32ToInt32 c r) = r"
    by (simp add: ConvertUint32ToInt32_def)
  have cu: "ret (ConvertUnsigned x t) = Throws exn \<longrightarrow> slot (ConvertUnsigned x t) = t"
    by (simp add: ConvertUnsigned_def eval_then_def ThrowProgramError_def Let_def)
  from sub rnd c32 cu show ?thesis
    unfolding SafeInt32Add_status_def SafeUint32Add_status_def SafeUint32Mult_status_def
      SafeUint32Mult3_status_def SafeUint32Mult4_status_def
    by (simp add: try_store_frame)
qed


text \<open>The theorem at one failing input of each function, the slot holding 5 (or 7).\<close>

theorem status_failure_leaves_slot_witness:
  "ret (SafeInt32Add_status 2147483647 1 5) = Returns False
   \<and> slot (SafeInt32Add_status 2147483647 1 5) = 5
   \<and> ret (SafeUint32Add_status 4294967295 1 5) = Returns False
   \<and> slot (SafeUint32Add_status 4294967295 1 5) = 5
   \<and> ret (SafeInt32Sub_status (- 2147483648) 1 5) = Returns False
   \<and> slot (SafeInt32Sub_status (- 2147483648) 1 5) = 5
   \<and> ret (SafeUint32Mult_status 65536 65536 5) = Returns False
   \<and> slot (SafeUint32Mult_status 65536 65536 5) = 5
   \<and> ret (SafeUint32Mult3_status 65536 256 256 5) = Returns False
   \<and> slot (SafeUint32Mult3_status 65536 256 256 5) = 5
   \<and> ret (SafeUint32Mult4_status 256 256 256 256 5) = Returns False
   \<and> slot (SafeUint32Mult4_status 256 256 256 256 5) = 5
   \<and> ret (RoundUpUint32ToMultiple 4294967295 2 5) = Returns False
   \<and> slot (RoundUpUint32ToMultiple 4294967295 2 5) = 5
   \<and> ret (ConvertUint32ToInt32 2147483648 5) = Returns False
   \<and> slot (ConvertUint32ToInt32 2147483648 5) = 5
   \<and> ret (ConvertUnsigned (300 :: 32 word) (7 :: 8 word)) =
        Throws (ProgramError ''Overflow in unsigned integer conversion'')
   \<and> slot (ConvertUnsigned (300 :: 32 word) (7 :: 8 word)) = 7"
proof -
  have h1: "ret (SafeInt32Add_status 2147483647 1 5) = Returns False"
    by (simp add: SafeInt32Add_status_def SafeInt32Add_def SafeAdd_signed_eq try_store_def)
  have h2: "ret (SafeUint32Add_status 4294967295 1 5) = Returns False"
    by (simp add: SafeUint32Add_status_def SafeUint32Add_def SafeAdd_unsigned_eq try_store_def)
  have h3: "ret (SafeInt32Sub_status (- 2147483648) 1 5) = Returns False"
    by (simp add: SafeInt32Sub_status_eq)
  have h4: "ret (SafeUint32Mult_status 65536 65536 5) = Returns False"
    by (simp add: SafeUint32Mult_status_def SafeUint32Mult_def SafeUnsignedMult_eq try_store_def)
  have h5: "ret (SafeUint32Mult3_status 65536 256 256 5) = Returns False"
    by (simp add: SafeUint32Mult3_status_def SafeUint32Mult3_eq try_store_def)
  have h6: "ret (SafeUint32Mult4_status 256 256 256 256 5) = Returns False"
    by (simp add: SafeUint32Mult4_status_def SafeUint32Mult4_def SafeUint32Mult3_eq
        SafeUint32Mult_def SafeUnsignedMult_eq try_store_def)
  have h7: "ret (RoundUpUint32ToMultiple 4294967295 2 5) = Returns False"
    by (simp add: RoundUpUint32ToMultiple_eq)
  have h8: "ret (ConvertUint32ToInt32 2147483648 5) = Returns False"
    by (simp add: ConvertUint32ToInt32_def kInt32MaxAsUint32_def numeric_limits_max_signed_def)
  have h9: "ret (ConvertUnsigned (300 :: 32 word) (7 :: 8 word)) =
        Throws (ProgramError ''Overflow in unsigned integer conversion'')"
    by (simp add: ConvertUnsigned_def eval_then_def ThrowProgramError_def Let_def)
  note c2 = conjunct2
  note p1 = status_failure_leaves_slot [THEN conjunct1, THEN mp, OF h1]
  note p2 = status_failure_leaves_slot [THEN c2, THEN conjunct1, THEN mp, OF h2]
  note p3 = status_failure_leaves_slot [THEN c2, THEN c2, THEN conjunct1, THEN mp, OF h3]
  note p4 = status_failure_leaves_slot [THEN c2, THEN c2, THEN c2, THEN conjunct1, THEN mp, OF h4]
  note p5 = status_failure_leaves_slot
    [THEN c2, THEN c2, THEN c2, THEN c2, THEN conjunct1, THEN mp, OF h5]
  note p6 = status_failure_leaves_slot
    [THEN c2, THEN c2, THEN c2, THEN c2, THEN c2, THEN conjunct1, THEN mp, OF h6]
  note p7 = status_failure_leaves_slot
    [THEN c2, THEN c2, THEN c2, THEN c2, THEN c2, THEN c2, THEN conjunct1, THEN mp, OF h7]
  note p8 = status_failure_leaves_slot
    [THEN c2, THEN c2, THEN c2, THEN c2, THEN c2, THEN c2, THEN c2, THEN conjunct1, THEN mp,
     OF h8]
  note p9 = status_failure_leaves_slot
    [THEN c2, THEN c2, THEN c2, THEN c2, THEN c2, THEN c2, THEN c2, THEN c2, THEN mp, OF h9]
  from h1 h2 h3 h4 h5 h6 h7 h8 h9 p1 p2 p3 p4 p5 p6 p7 p8 p9 show ?thesis by simp
qed

section \<open>Status forms and the direct range checks\<close>

lemma SafeInt32Add_status_eq:
  "SafeInt32Add_status a b r =
     (if - (2 ^ 31) \<le> sint a + sint b \<and> sint a + sint b < 2 ^ 31
      then \<lparr>ret = Returns True, slot = a + b, caught = []\<rparr>
      else \<lparr>ret = Returns False, slot = r, caught = [ProgramError ''Arithmetic overflow'']\<rparr>)"
  by (simp add: SafeInt32Add_status_def SafeInt32Add_def SafeAdd_signed_eq try_store_def)

lemma SafeUint32Add_status_eq:
  "SafeUint32Add_status a b r =
     (if unat a + unat b < 2 ^ 32
      then \<lparr>ret = Returns True, slot = a + b, caught = []\<rparr>
      else \<lparr>ret = Returns False, slot = r, caught = [ProgramError ''Arithmetic overflow'']\<rparr>)"
  by (simp add: SafeUint32Add_status_def SafeUint32Add_def SafeAdd_unsigned_eq try_store_def)

lemma spec_direct_add_uint32_eq:
  "spec_direct_add_uint32 a b r = (if unat a + unat b < 2 ^ 32 then (True, a + b) else (False, r))"
proof -
  have "unat a < 2 ^ 32" using unsigned_less [of a] by simp
  then have "unat b \<le> 2 ^ 32 - 1 - unat a \<longleftrightarrow> unat a + unat b < 2 ^ 32" by arith
  then show ?thesis by (simp add: spec_direct_add_uint32_def)
qed

text \<open>
  Claim C9, as amended. The status form of subtraction makes its range check directly:
  no condition is raised inside it. The status forms of addition call the result form and
  convert the condition it raises: a failing call has caught "Arithmetic overflow".
  \<open>RoundUpUint32ToMultiple\<close> rejects a zero multiple directly and otherwise fails
  only through the status form of addition, so that failure is a converted condition as
  well. Each of these status forms returns the status, and leaves in the slot the value,
  of the direct range check of the specification.
\<close>

theorem status_forms_versus_direct_checks:
  "caught (SafeInt32Sub_status a b r) = []
   \<and> ret (SafeInt32Sub_status a b r) = Returns (fst (spec_direct_sub_int32 a b r))
   \<and> slot (SafeInt32Sub_status a b r) = snd (spec_direct_sub_int32 a b r)
   \<and> caught (SafeInt32Add_status a b r) =
        (if ret (SafeInt32Add_status a b r) = Returns True then []
         else [ProgramError ''Arithmetic overflow''])
   \<and> ret (SafeInt32Add_status a b r) = Returns (fst (spec_direct_add_int32 a b r))
   \<and> slot (SafeInt32Add_status a b r) = snd (spec_direct_add_int32 a b r)
   \<and> caught (SafeUint32Add_status c d s) =
        (if ret (SafeUint32Add_status c d s) = Returns True then []
         else [ProgramError ''Arithmetic overflow''])
   \<and> ret (SafeUint32Add_status c d s) = Returns (fst (spec_direct_add_uint32 c d s))
   \<and> slot (SafeUint32Add_status c d s) = snd (spec_direct_add_uint32 c d s)
   \<and> caught (RoundUpUint32ToMultiple c d s) =
        (if d = 0 \<or> ret (RoundUpUint32ToMultiple c d s) = Returns True then []
         else [ProgramError ''Arithmetic overflow''])
   \<and> ret (RoundUpUint32ToMultiple c d s) = Returns (fst (spec_direct_round_up c d s))
   \<and> slot (RoundUpUint32ToMultiple c d s) = snd (spec_direct_round_up c d s)"
proof -
  have sub: "caught (SafeInt32Sub_status a b r) = []
   \<and> ret (SafeInt32Sub_status a b r) = Returns (fst (spec_direct_sub_int32 a b r))
   \<and> slot (SafeInt32Sub_status a b r) = snd (spec_direct_sub_int32 a b r)"
  proof -
    have "- (2 ^ 31) \<le> sint b" "sint b < 2 ^ 31"
      using sint_ge [of b] sint_lt [of b] by simp_all
    moreover have "- (2 ^ 31) \<le> sint a" "sint a < 2 ^ 31"
      using sint_ge [of a] sint_lt [of a] by simp_all
    ultimately have "(0 \<le> sint b \<and> - (2 ^ 31) + sint b \<le> sint a) \<or>
         (sint b < 0 \<and> sint a \<le> 2 ^ 31 - 1 + sint b) \<longleftrightarrow>
       - (2 ^ 31) \<le> sint a - sint b \<and> sint a - sint b < 2 ^ 31"
      by auto
    then show ?thesis
      by (simp add: SafeInt32Sub_status_eq spec_direct_sub_int32_def)
  qed
  have add_s: "caught (SafeInt32Add_status a b r) =
        (if ret (SafeInt32Add_status a b r) = Returns True then []
         else [ProgramError ''Arithmetic overflow''])
   \<and> ret (SafeInt32Add_status a b r) = Returns (fst (spec_direct_add_int32 a b r))
   \<and> slot (SafeInt32Add_status a b r) = snd (spec_direct_add_int32 a b r)"
  proof -
    have "- (2 ^ 31) - sint a \<le> sint b \<and> sint b \<le> 2 ^ 31 - 1 - sint a \<longleftrightarrow>
        - (2 ^ 31) \<le> sint a + sint b \<and> sint a + sint b < 2 ^ 31"
      by auto
    then have "spec_direct_add_int32 a b r =
        (if - (2 ^ 31) \<le> sint a + sint b \<and> sint a + sint b < 2 ^ 31
         then (True, a + b) else (False, r))"
      unfolding spec_direct_add_int32_def by simp
    then show ?thesis
      by (simp add: SafeInt32Add_status_eq)
  qed
  have add_u: "caught (SafeUint32Add_status c d s) =
        (if ret (SafeUint32Add_status c d s) = Returns True then []
         else [ProgramError ''Arithmetic overflow''])
   \<and> ret (SafeUint32Add_status c d s) = Returns (fst (spec_direct_add_uint32 c d s))
   \<and> slot (SafeUint32Add_status c d s) = snd (spec_direct_add_uint32 c d s)"
    by (simp add: SafeUint32Add_status_eq spec_direct_add_uint32_eq)
  have rnd: "caught (RoundUpUint32ToMultiple c d s) =
        (if d = 0 \<or> ret (RoundUpUint32ToMultiple c d s) = Returns True then []
         else [ProgramError ''Arithmetic overflow''])
   \<and> ret (RoundUpUint32ToMultiple c d s) = Returns (fst (spec_direct_round_up c d s))
   \<and> slot (RoundUpUint32ToMultiple c d s) = snd (spec_direct_round_up c d s)"
  proof (cases "d = 0")
    case True
    then show ?thesis
      by (simp add: RoundUpUint32ToMultiple_zero spec_direct_round_up_def)
  next
    case False
    have "c mod d \<le> d" using False
      by (simp add: word_mod_less_divisor word_neq_0_conv less_imp_le)
    then have "unat (d - c mod d) = unat d - unat c mod unat d"
      by (simp add: unat_sub unat_mod)
    then show ?thesis using False
      by (simp add: RoundUpUint32ToMultiple_eq spec_direct_round_up_def
          spec_direct_add_uint32_eq)
  qed
  from sub add_s add_u rnd show ?thesis by blast
qed

text \<open>
  Claim C9 as stated says the status forms of addition and round-up never route through
  the raising form. At \<open>2147483647 + 1\<close>, at \<open>4294967295 + 1\<close> and at rounding
  \<open>4294967295\<close> up to a multiple of 2, the call raises the condition and catches it.
\<close>

theorem status_add_catches_counterexample:
  "caught (SafeInt32Add_status 2147483647 1 0) = [ProgramError ''Arithmetic overflow'']
   \<and> caught (SafeUint32Add_status 4294967295 1 0) = [ProgramError ''Arithmetic overflow'']
   \<and> caught (RoundUpUint32ToMultiple 4294967295 2 0) = [ProgramError ''Arithmetic overflow'']"
  by (simp add: SafeInt32Add_status_def SafeInt32Add_def SafeAdd_signed_def
      SafeUint32Add_status_def SafeUint32Add_def SafeAdd_unsigned_def
      RoundUpUint32ToMultiple_def eval_then_def unsigned_mod_def try_store_def
      lor_def land_def signed_sub_def signed_add_def signed_result_def
      numeric_limits_max_signed_def numeric_limits_min_signed_def
      numeric_limits_max_unsigned_def numeric_limits_min_unsigned_def
      ThrowProgramError_def word_sle_eq word_sless_alt word_le_nat_alt)

text \<open>The amended theorem at a failing subtraction, a failing and a succeeding addition,
  and a zero multiple.\<close>

theorem status_forms_versus_direct_checks_witness:
  "caught (SafeInt32Sub_status (- 2147483648) 1 5) = []
   \<and> ret (SafeInt32Sub_status (- 2147483648) 1 5) = Returns False
   \<and> slot (SafeInt32Sub_status (- 2147483648) 1 5) = 5
   \<and> ret (SafeInt32Add_status 2147483647 1 5) = Returns False
   \<and> slot (SafeInt32Add_status 2147483647 1 5) = 5
   \<and> caught (SafeInt32Add_status 2147483647 1 5) = [ProgramError ''Arithmetic overflow'']
   \<and> ret (SafeUint32Add_status 4294967294 1 5) = Returns True
   \<and> slot (SafeUint32Add_status 4294967294 1 5) = 4294967295
   \<and> caught (SafeUint32Add_status 4294967294 1 5) = []
   \<and> ret (RoundUpUint32ToMultiple 4294967294 0 5) = Returns False
   \<and> caught (RoundUpUint32ToMultiple 4294967294 0 5) = []"
  using status_forms_versus_direct_checks [of "- 2147483648" 1 5 4294967294 1 5]
    status_forms_versus_direct_checks [of 2147483647 1 5 4294967294 0 5]
  by (simp add: spec_direct_sub_int32_def spec_direct_add_int32_def spec_direct_add_uint32_def
      spec_direct_round_up_def)

section \<open>Divisions never have a zero divisor\<close>

lemma and_then_defined:
  "c \<noteq> Undefined u \<Longrightarrow> (\<And>v. f v \<noteq> Undefined u) \<Longrightarrow> and_then c f \<noteq> Undefined u"
  by (cases c) simp_all

lemma try_store_defined:
  "c \<noteq> Undefined u \<Longrightarrow> ret (try_store c r) \<noteq> Undefined u"
  by (cases c) (simp_all add: try_store_def)

text \<open>
  Claim C10. In the model every division or remainder with a zero divisor ends the call
  in \<open>Undefined DivisionByZero\<close>, and nothing catches that. No call of
  \<open>SafeUnsignedMult\<close> (and so of \<open>SafeUint32Mult\<close> with two, three or four factors, in
  either form, and of \<open>SafeSizetMult\<close>), of \<open>SafeInt64Mult\<close>, of
  \<open>SafeUint32DivideUp\<close> or of \<open>RoundUpUint32ToMultiple\<close> ends in undefined behaviour
  of any kind: every division they execute has a nonzero divisor, and each call returns
  or throws.
\<close>

theorem no_undefined_division:
  "SafeUnsignedMult p q \<noteq> Undefined u
   \<and> SafeUint32Mult a b \<noteq> Undefined u
   \<and> SafeUint32Mult3 a b c \<noteq> Undefined u
   \<and> SafeUint32Mult4 a b c d \<noteq> Undefined u
   \<and> ret (SafeUint32Mult_status a b r) \<noteq> Undefined u
   \<and> ret (SafeUint32Mult3_status a b c r) \<noteq> Undefined u
   \<and> ret (SafeUint32Mult4_status a b c d r) \<noteq> Undefined u
   \<and> SafeSizetMult p q \<noteq> Undefined u
   \<and> SafeInt64Mult x y \<noteq> Undefined u
   \<and> SafeUint32DivideUp a b \<noteq> Undefined u
   \<and> ret (RoundUpUint32ToMultiple a b r) \<noteq> Undefined u"
proof -
  have m: "SafeUnsignedMult p' q' \<noteq> Undefined u" for p' q' :: "'m::len word"
    by (simp add: SafeUnsignedMult_eq)
  have m2: "SafeUint32Mult a' b' \<noteq> Undefined u" for a' b'
    unfolding SafeUint32Mult_def by (rule m)
  have m3: "SafeUint32Mult3 a' b' c' \<noteq> Undefined u" for a' b' c'
    unfolding SafeUint32Mult3_def by (rule and_then_defined) (rule m2)+
  have m4: "SafeUint32Mult4 a b c d \<noteq> Undefined u"
    unfolding SafeUint32Mult4_def by (rule and_then_defined) (rule m3, rule m2)
  have sz: "SafeSizetMult p q \<noteq> Undefined u"
    unfolding SafeSizetMult_def by (rule m)
  have i64: "SafeInt64Mult x y \<noteq> Undefined u"
    by (simp add: SafeInt64Mult_eq)
  have du: "SafeUint32DivideUp a b \<noteq> Undefined u"
    by (simp add: SafeUint32DivideUp_def unsigned_div_def ThrowProgramError_def)
  have rnd: "ret (RoundUpUint32ToMultiple a b r) \<noteq> Undefined u"
  proof (cases "b = 0")
    case True
    then show ?thesis by (simp add: RoundUpUint32ToMultiple_zero)
  next
    case False
    then show ?thesis by (simp add: RoundUpUint32ToMultiple_eq)
  qed
  from m [of p q] m2 [of a b] m3 [of a b c] m4 sz i64 du rnd show ?thesis
    unfolding SafeUint32Mult_status_def SafeUint32Mult3_status_def SafeUint32Mult4_status_def
    by (simp add: try_store_defined)
qed

end
